theory Spec2Isabelle
  imports Complex_Main
begin

section \<open>Errors\<close>

text \<open>
  The Python exceptions that the modelled code can raise. An uncaught exception is the
  \<open>Inl\<close> branch of a result; \<open>EphemerisError\<close> stands for whatever the external
  Horizons lookup (\<^verbatim>\<open>horizons.Body(...).predict\<close>) raises when it fails.
\<close>

datatype py_error =
  IndexError | ZeroDivisionError | OverflowError | TypeError | ValueError | EphemerisError

section \<open>Exposure times (create\_cfht\_observations.py and ph2.py, identical code)\<close>

text \<open>\<^verbatim>\<open>IC_exptimes = [40, 80, 120, 160, 200, 240, 300, 340, 380, 420, 440, 480, 500]\<close>\<close>

definition IC_exptimes :: "int list" where
  "IC_exptimes = [40, 80, 120, 160, 200, 240, 300, 340, 380, 420, 440, 480, 500]"

text \<open>
  Magnitudes and exposure times are Python floats, that is doubles. A double is modelled
  by the real number it stands for, together with the range of the format: the largest
  double and the smallest positive one.
\<close>

definition DBL_MAX :: real where
  "DBL_MAX = (2 ^ 53 - 1) * 2 ^ 971"

definition DBL_TRUE_MIN :: real where
  "DBL_TRUE_MIN = 1 / 2 ^ 1074"

text \<open>
  Python's \<^verbatim>\<open>x ** y\<close> on floats, for \<open>x \<ge> 0\<close>: a result beyond the largest double
  raises \<^verbatim>\<open>OverflowError\<close>; a result of at most half the smallest positive double
  is \<^verbatim>\<open>0.0\<close>, without an exception. Inside the range the result is the real power:
  the rounding of the mantissa is not modelled.
\<close>

definition float_pow :: "real \<Rightarrow> real \<Rightarrow> py_error + real" where
  "float_pow x y =
     (if DBL_MAX < x powr y then Inl OverflowError
      else if x powr y \<le> DBL_TRUE_MIN / 2 then Inr 0
      else Inr (x powr y))"

text \<open>
  \<^verbatim>\<open>exact_exptime = min(499, max(40, 300.0 / ((10 ** ((24.5 - mag) / 2.5)) ** 2)))\<close>

  Either power can raise \<^verbatim>\<open>OverflowError\<close>, and the division raises
  \<^verbatim>\<open>ZeroDivisionError\<close> when the square has become \<^verbatim>\<open>0.0\<close>. A quotient beyond
  the largest double is \<^verbatim>\<open>inf\<close> in Python and is clamped to 499 like the real quotient.
\<close>

definition exact_exptime :: "real \<Rightarrow> py_error + real" where
  "exact_exptime mag =
     (case float_pow 10 ((24.5 - mag) / 2.5) of
        Inl e \<Rightarrow> Inl e
      | Inr p \<Rightarrow>
          (case float_pow p 2 of
             Inl e \<Rightarrow> Inl e
           | Inr d \<Rightarrow>
               if d = 0 then Inl ZeroDivisionError
               else Inr (min 499 (max 40 (300 / d)))))"

text \<open>\<^verbatim>\<open>return len(cuts) - (exact_exptime < cuts).sum()\<close>\<close>

definition exposure_time_index :: "real \<Rightarrow> py_error + int" where
  "exposure_time_index mag =
     (case exact_exptime mag of
        Inl e \<Rightarrow> Inl e
      | Inr x \<Rightarrow>
          Inr (int (length IC_exptimes)
               - int (length (filter (\<lambda>c. x < real_of_int c) IC_exptimes))))"

text \<open>
  Subscripting a Python list with an integer: \<^verbatim>\<open>xs[i]\<close> reads position \<open>i\<close>, or
  position \<open>len(xs) + i\<close> when \<open>i\<close> is negative, and raises \<^verbatim>\<open>IndexError\<close>
  when that position does not exist.
\<close>

definition py_index :: "'a list \<Rightarrow> int \<Rightarrow> py_error + 'a" where
  "py_index xs i =
     (if 0 \<le> i \<and> i < int (length xs) then Inr (xs ! nat i)
      else if i < 0 \<and> - int (length xs) \<le> i then Inr (xs ! nat (int (length xs) + i))
      else Inl IndexError)"

text \<open>\<^verbatim>\<open>return IC_exptimes[exposure_time_index(mag)]\<close>\<close>

definition exposure_time :: "real \<Rightarrow> py_error + int" where
  "exposure_time mag =
     (case exposure_time_index mag of
        Inl e \<Rightarrow> Inl e
      | Inr i \<Rightarrow> py_index IC_exptimes i)"

section \<open>Observing-group scheduling (create\_cfht\_observations.py and ph2.py)\<close>

text \<open>
  A target as the scheduling loops read it: its token, the coordinate of its first
  ephemeris point (right ascension and declination, in degrees) and its magnitude.
  In ph2.py the token is the observing-block token \<^verbatim>\<open>ob_token\<close>, the coordinate is
  \<^verbatim>\<open>ob_coordinate[ob_token]\<close> and the magnitude is \<^verbatim>\<open>mags[ob_token]\<close>.
\<close>

type_synonym coord = "real \<times> real"

record target =
  token :: string
  coordinate :: coord
  magnitude :: real

text \<open>
  The variables of one pass of the \<^verbatim>\<open>for\<close> loop that fills an observing group:
  the \<^verbatim>\<open>scheduled\<close> dictionary (its keys, every value being \<^verbatim>\<open>True\<close>),
  \<^verbatim>\<open>og_coord\<close>, \<^verbatim>\<open>og_itime\<close> and the target tokens added to the group.
\<close>

record og_state =
  scheduled :: "string list"
  og_coord :: "coord option"
  og_itime :: int
  components :: "string list"

text \<open>
  The \<^verbatim>\<open>for target in targets_by_ra\<close> loop (\<^verbatim>\<open>for ob_token in order_tokens\<close> in
  ph2.py). The angular separation is astropy's \<^verbatim>\<open>SkyCoord.separation\<close>, in degrees,
  passed as \<open>sep\<close>. The two files differ in one place: ph2.py adds 40 seconds of overhead
  to each exposure, create\_cfht\_observations.py adds none; \<open>ovh\<close> is that number.

  \<^verbatim>\<open>
  if target.token not in scheduled:
      if og_coord is None:
          og_coord = target_coord
      if target_coord.separation(og_coord) > 10 * units.degree:
          continue
      scheduled[target.token] = True
      etime_sec = exposure_time(target.magnitude.magnitude)
      og_itime += etime_sec
      observing_component.target_token = target.token
      if og_itime > 3000.0:
          break
      break
  \<close>
\<close>

fun og_scan :: "int \<Rightarrow> (coord \<Rightarrow> coord \<Rightarrow> real) \<Rightarrow> target list \<Rightarrow> og_state
                  \<Rightarrow> py_error + og_state" where
  "og_scan ovh sep [] s = Inr s"
| "og_scan ovh sep (t # ts) s =
     (if token t \<in> set (scheduled s) then og_scan ovh sep ts s
      else
        let c = (case og_coord s of None \<Rightarrow> coordinate t | Some c' \<Rightarrow> c') in
        if sep (coordinate t) c > 10 then og_scan ovh sep ts (s\<lparr>og_coord := Some c\<rparr>)
        else
          (case exposure_time (magnitude t) of
             Inl e \<Rightarrow> Inl e
           | Inr etime_sec \<Rightarrow>
               let s' = s\<lparr>og_coord := Some c,
                          scheduled := List.insert (token t) (scheduled s),
                          og_itime := og_itime s + (etime_sec + ovh),
                          components := components s @ [token t]\<rparr>
               in if real_of_int (og_itime s') > 3000 then Inr s' else Inr s'))"

text \<open>An observing group as it is handed to the repository, with the duration reported for it.\<close>

record persisted_og =
  og_token :: string
  members :: "string list"
  duration :: int

text \<open>The variables of the \<^verbatim>\<open>while\<close> loop.\<close>

record run_state =
  run_scheduled :: "string list"
  og_idx :: nat
  total_itime :: int
  persisted :: "persisted_og list"

definition initial_run :: run_state where
  "initial_run = \<lparr>run_scheduled = [], og_idx = 0, total_itime = 0, persisted = []\<rparr>"

text \<open>
  One iteration of the \<^verbatim>\<open>while\<close> loop: the group index is incremented, a group is
  filled by the \<^verbatim>\<open>for\<close> loop, and its copies are persisted; \<open>emit\<close> builds the copies
  (it is where the two files differ) and each copy adds the group's duration to
  \<^verbatim>\<open>total_itime\<close>.
\<close>

definition og_body :: "int \<Rightarrow> (coord \<Rightarrow> coord \<Rightarrow> real)
    \<Rightarrow> (nat \<Rightarrow> string list \<Rightarrow> int \<Rightarrow> persisted_og list)
    \<Rightarrow> target list \<Rightarrow> run_state \<Rightarrow> py_error + run_state" where
  "og_body ovh sep emit targets r =
     (let idx = og_idx r + 1 in
      case og_scan ovh sep targets
             \<lparr>scheduled = run_scheduled r, og_coord = None, og_itime = 0, components = []\<rparr> of
        Inl e \<Rightarrow> Inl e
      | Inr s \<Rightarrow>
          let copies = emit idx (components s) (og_itime s)
          in Inr \<lparr>run_scheduled = scheduled s, og_idx = idx,
                  total_itime = total_itime r + sum_list (map duration copies),
                  persisted = persisted r @ copies\<rparr>)"

text \<open>
  \<^verbatim>\<open>while len(scheduled) < len(targets_by_ra):\<close> with a bound on the number of
  iterations: \<open>None\<close> means that the loop is still running after \<open>fuel\<close> iterations.
\<close>

fun og_loop :: "nat \<Rightarrow> int \<Rightarrow> (coord \<Rightarrow> coord \<Rightarrow> real)
    \<Rightarrow> (nat \<Rightarrow> string list \<Rightarrow> int \<Rightarrow> persisted_og list)
    \<Rightarrow> target list \<Rightarrow> nat \<Rightarrow> run_state \<Rightarrow> (py_error + run_state) option" where
  "og_loop 0 ovh sep emit targets n r =
     (if length (run_scheduled r) < n then None else Some (Inr r))"
| "og_loop (Suc fuel) ovh sep emit targets n r =
     (if length (run_scheduled r) < n then
        (case og_body ovh sep emit targets r of
           Inl e \<Rightarrow> Some (Inl e)
         | Inr r' \<Rightarrow> og_loop fuel ovh sep emit targets n r')
      else Some (Inr r))"

text \<open>
  The variables of the \<^verbatim>\<open>while\<close> loop after at most \<open>k\<close> iterations, whether or
  not the loop has ended by then: this is what a run that never ends has done so far.
\<close>

fun og_passes :: "nat \<Rightarrow> int \<Rightarrow> (coord \<Rightarrow> coord \<Rightarrow> real)
    \<Rightarrow> (nat \<Rightarrow> string list \<Rightarrow> int \<Rightarrow> persisted_og list)
    \<Rightarrow> target list \<Rightarrow> nat \<Rightarrow> run_state \<Rightarrow> py_error + run_state" where
  "og_passes 0 ovh sep emit targets n r = Inr r"
| "og_passes (Suc k) ovh sep emit targets n r =
     (if length (run_scheduled r) < n then
        (case og_body ovh sep emit targets r of
           Inl e \<Rightarrow> Inl e
         | Inr r' \<Rightarrow> og_passes k ovh sep emit targets n r')
      else Inr r)"

subsection \<open>Tokens\<close>

text \<open>Python's decimal rendering of a non-negative integer (\<^verbatim>\<open>%s\<close>, \<^verbatim>\<open>{}\<close>).\<close>

definition digit_char :: "nat \<Rightarrow> char" where
  "digit_char d = ''0123456789'' ! d"

fun str_nat :: "nat \<Rightarrow> string" where
  "str_nat n = (if n < 10 then [digit_char n] else str_nat (n div 10) @ [digit_char (n mod 10)])"

declare str_nat.simps [simp del]

text \<open>create\_cfht\_observations.py: \<^verbatim>\<open>"%s-%s-%s" % (self.qrunid, og_idx, repeat)\<close>\<close>

definition og_name :: "string \<Rightarrow> nat \<Rightarrow> nat \<Rightarrow> string" where
  "og_name qrunid idx repeat = qrunid @ ''-'' @ str_nat idx @ ''-'' @ str_nat repeat"

text \<open>
  create\_cfht\_observations.py; \<open>generate_token\<close> is the repository's
  \<^verbatim>\<open>generate_observing_group_token\<close>.
  \<^verbatim>\<open>
  for repeat in range(3):
      og_token = self.generate_observing_group_token("%s-%s-%s" % (self.qrunid, og_idx, repeat))
      total_itime += og_itime
      self.observing_group_repository.persist(og_token, observing_group)
  \<close>
\<close>

definition cfht_emit :: "(string \<Rightarrow> string) \<Rightarrow> string \<Rightarrow> nat \<Rightarrow> string list \<Rightarrow> int
    \<Rightarrow> persisted_og list" where
  "cfht_emit generate_token qrunid idx obs itime =
     map (\<lambda>repeat. \<lparr>og_token = generate_token (og_name qrunid idx repeat),
                      members = obs, duration = itime\<rparr>) [0..<3]"

text \<open>ph2.py: \<^verbatim>\<open>"OG_{}_{}_{}_{}".format(args.runid, args.qrunid, og_idx, repeat)\<close>\<close>

definition ph2_og_token :: "string \<Rightarrow> string \<Rightarrow> nat \<Rightarrow> nat \<Rightarrow> string" where
  "ph2_og_token runid qrunid idx repeat =
     ''OG_'' @ runid @ ''_'' @ qrunid @ ''_'' @ str_nat idx @ ''_'' @ str_nat repeat"

text \<open>
  ph2.py: the group is added with repeat 0, then
  \<^verbatim>\<open>
  nrepeats = 2
  for repeat in range(nrepeats):
      total_itime += og_itime
      og_token = "OG_{}_{}_{}_{}".format(args.runid, args.qrunid, og_idx, repeat+1)
      og = copy.deepcopy(og)
      og.config["identifier"]["client_token"] = og_token
      program.add_observing_group(og.config)
  \<close>
\<close>

definition nrepeats :: nat where
  "nrepeats = 2"

definition ph2_emit :: "string \<Rightarrow> string \<Rightarrow> nat \<Rightarrow> string list \<Rightarrow> int \<Rightarrow> persisted_og list" where
  "ph2_emit runid qrunid idx obs itime =
     \<lparr>og_token = ph2_og_token runid qrunid idx 0, members = obs, duration = itime\<rparr>
     # map (\<lambda>repeat. \<lparr>og_token = ph2_og_token runid qrunid idx (repeat + 1),
                        members = obs, duration = itime\<rparr>) [0..<nrepeats]"

text \<open>
  The scheduling part of \<^verbatim>\<open>CfhtUpload.execute\<close>, from the list \<^verbatim>\<open>targets_by_ra\<close>.
\<close>

definition execute :: "(string \<Rightarrow> string) \<Rightarrow> string \<Rightarrow> (coord \<Rightarrow> coord \<Rightarrow> real)
    \<Rightarrow> target list \<Rightarrow> nat \<Rightarrow> (py_error + run_state) option" where
  "execute generate_token qrunid sep targets_by_ra fuel =
     og_loop fuel 0 sep (cfht_emit generate_token qrunid) targets_by_ra
       (length targets_by_ra) initial_run"

text \<open>
  The scheduling part of ph2.py's main program: \<open>n_ob_tokens\<close> is
  \<^verbatim>\<open>len(ob_tokens)\<close> and \<open>order_tokens\<close> the keys of \<^verbatim>\<open>ob_coordinate\<close> in
  right-ascension order, each with its coordinate and magnitude.
\<close>

definition ph2_main :: "string \<Rightarrow> string \<Rightarrow> (coord \<Rightarrow> coord \<Rightarrow> real)
    \<Rightarrow> nat \<Rightarrow> target list \<Rightarrow> nat \<Rightarrow> (py_error + run_state) option" where
  "ph2_main runid qrunid sep n_ob_tokens order_tokens fuel =
     og_loop fuel 40 sep (ph2_emit runid qrunid) order_tokens n_ob_tokens initial_run"

section \<open>Visibility windows (recon\_parser.py)\<close>

text \<open>
  Times are whole seconds: every time the loop compares is read back from the string that
  pyephem prints for a date, which has a resolution of one second.
  \<^verbatim>\<open>MINIMUM_UP_TIME = 1.0 * units.hour\<close>

  The source compares the duration, converted to hours in double precision, with one hour;
  the model compares whole seconds with 3600. They can differ only for a window of exactly
  3600 seconds, where the rounding of the conversion decides in the source.
\<close>

definition MINIMUM_UP_TIME :: int where
  "MINIMUM_UP_TIME = 3600"

text \<open>
  The branches that set \<^verbatim>\<open>start\<close> and \<^verbatim>\<open>end\<close>, both \<^verbatim>\<open>None\<close> before:
  \<^verbatim>\<open>
  start = end = None
  if target_rise_time > sun_rise_time:
      if target_set_time > sun_set_time:
          start = sun_set_time
          if target_set_time < sun_rise_time: end = target_set_time
          else: end = sun_rise_time
  elif target_rise_time < sun_set_time:
      start = sun_set_time
      ...
  elif sun_set_time < target_rise_time < sun_rise_time:
      start = target_rise_time
      ...
  \<close>
\<close>

definition start_end :: "int \<Rightarrow> int \<Rightarrow> int \<Rightarrow> int \<Rightarrow> int option \<times> int option" where
  "start_end sun_set_time sun_rise_time target_rise_time target_set_time =
     (if target_rise_time > sun_rise_time then
        (if target_set_time > sun_set_time then
           (Some sun_set_time,
            Some (if target_set_time < sun_rise_time then target_set_time else sun_rise_time))
         else (None, None))
      else if target_rise_time < sun_set_time then
        (Some sun_set_time,
         Some (if target_set_time < sun_rise_time then target_set_time else sun_rise_time))
      else if sun_set_time < target_rise_time \<and> target_rise_time < sun_rise_time then
        (Some target_rise_time,
         Some (if target_set_time < sun_rise_time then target_set_time else sun_rise_time))
      else (None, None))"

text \<open>
  \<^verbatim>\<open>duration = (end - start).to(units.hour)\<close>: subtracting \<^verbatim>\<open>None\<close> raises
  \<^verbatim>\<open>TypeError\<close>. The duration is kept in seconds.
\<close>

definition up_duration :: "int option \<times> int option \<Rightarrow> py_error + int" where
  "up_duration se =
     (case se of
        (Some start, Some end') \<Rightarrow> Inr (end' - start)
      | _ \<Rightarrow> Inl TypeError)"

text \<open>
  What the loop body decides for one target: an exception, \<^verbatim>\<open>continue\<close> without
  appending (\<open>Skipped\<close>), or \<^verbatim>\<open>good_targets.append(target)\<close> with the values that
  \<^verbatim>\<open>start\<close> and \<^verbatim>\<open>end\<close> have at that point.
  \<^verbatim>\<open>
  duration = (end - start).to(units.hour)
  if duration < MINIMUM_UP_TIME:
      continue
  good_targets.append(target)
  \<close>
\<close>

datatype visibility = Skipped | Accepted "int option" "int option"

definition visibility_window :: "int \<Rightarrow> int \<Rightarrow> int \<Rightarrow> int \<Rightarrow> py_error + visibility" where
  "visibility_window sun_set_time sun_rise_time target_rise_time target_set_time =
     (case start_end sun_set_time sun_rise_time target_rise_time target_set_time of
        (start, end') \<Rightarrow>
          (case up_duration (start, end') of
             Inl e \<Rightarrow> Inl e
           | Inr d \<Rightarrow> if d < MINIMUM_UP_TIME then Inr Skipped else Inr (Accepted start end')))"

text \<open>
  A row of the filtered table together with what the external calls return for it
  (lines 268 to 277 of recon\_parser.py): either one of them raises, or they give the
  target with its rise and set times. The Horizons lookup (\<^verbatim>\<open>horizons.Body(name, ...)\<close>
  and \<^verbatim>\<open>o.predict\<close>) raises when it fails; for a target that never rises or never sets
  at the site pyephem has no time, and reading it back with \<^verbatim>\<open>Time(...)\<close> raises
  \<^verbatim>\<open>ValueError\<close>.
\<close>

record ephemeris =
  rise_time :: int
  set_time :: int
  mag :: real

record recon_row =
  name :: string
  lookup :: "py_error + ephemeris"

text \<open>
  The \<^verbatim>\<open>for row in table\<close> loop of \<^verbatim>\<open>parse_recon_table\<close>; the names of the accepted
  targets are collected in \<open>good_targets\<close>. Nothing in the loop catches an exception of
  the lookup or of the subtraction.
\<close>

fun parse_rows :: "int \<Rightarrow> int \<Rightarrow> recon_row list \<Rightarrow> string list \<Rightarrow> py_error + string list" where
  "parse_rows sun_set_time sun_rise_time [] good_targets = Inr good_targets"
| "parse_rows sun_set_time sun_rise_time (row # rows) good_targets =
     (case lookup row of
        Inl e \<Rightarrow> Inl e
      | Inr o_body \<Rightarrow>
          (case visibility_window sun_set_time sun_rise_time (rise_time o_body) (set_time o_body) of
             Inl e \<Rightarrow> Inl e
           | Inr Skipped \<Rightarrow> parse_rows sun_set_time sun_rise_time rows good_targets
           | Inr (Accepted start end') \<Rightarrow>
               parse_rows sun_set_time sun_rise_time rows (good_targets @ [name row])))"

definition parse_recon_table :: "int \<Rightarrow> int \<Rightarrow> recon_row list \<Rightarrow> py_error + string list" where
  "parse_recon_table sun_set_time sun_rise_time table = parse_rows sun_set_time sun_rise_time table []"

section \<open>Properties of the exposure times\<close>

lemma DBL_MAX_ge: "10 ^ 308 \<le> DBL_MAX"
  by (simp add: DBL_MAX_def)

lemma DBL_MAX_lt: "DBL_MAX < 2 * 10 ^ 308"
  by (simp add: DBL_MAX_def)

lemma DBL_TRUE_MIN_half: "DBL_TRUE_MIN / 2 = 1 / 2 ^ 1075"
  by (simp add: DBL_TRUE_MIN_def)

lemma two_1075_gt: "(4::real) * 10 ^ 323 < 2 ^ 1075"
  by simp

lemma two_1075_le: "(2::real) ^ 1075 \<le> 10 ^ 324"
  by simp

lemma ten_powr_three_fifths: "(10::real) powr (3 / 5) \<le> 4"
proof -
  have "(10::real) powr (3 / 5) = 10 powr (3 * (1 / 5))" by simp
  also have "\<dots> = (10 powr 3) powr (1 / 5)" by (rule powr_powr [symmetric])
  also have "\<dots> \<le> (4 powr 5) powr (1 / 5)" by (intro powr_mono2) simp_all
  also have "\<dots> = 4 powr (5 * (1 / 5))" by (rule powr_powr)
  also have "\<dots> = 4" by simp
  finally show ?thesis .
qed

lemma ten_powr_two_fifths: "2 \<le> (10::real) powr (2 / 5)"
proof -
  have "(2::real) = 2 powr (5 * (1 / 5))" by simp
  also have "\<dots> = (2 powr 5) powr (1 / 5)" by (rule powr_powr [symmetric])
  also have "\<dots> \<le> (10 powr 2) powr (1 / 5)" by (intro powr_mono2) simp_all
  also have "\<dots> = 10 powr (2 * (1 / 5))" by (rule powr_powr)
  also have "\<dots> = 10 powr (2 / 5)" by simp
  finally show ?thesis .
qed

lemma ten_powr_upper: "a \<le> 308 \<Longrightarrow> (10::real) powr a \<le> DBL_MAX"
proof -
  assume "a \<le> 308"
  then have "(10::real) powr a \<le> 10 powr 308" by (intro powr_mono) simp_all
  also have "\<dots> = 10 ^ 308" by simp
  finally show ?thesis using DBL_MAX_ge by linarith
qed

lemma ten_powr_lower: "- (1618 / 5) \<le> a \<Longrightarrow> DBL_TRUE_MIN / 2 < (10::real) powr a"
proof -
  assume a: "- (1618 / 5) \<le> a"
  have "(10::real) powr (1618 / 5) = 10 powr (323 + 3 / 5)" by simp
  also have "\<dots> = 10 powr 323 * 10 powr (3 / 5)" by (simp only: powr_add)
  also have "\<dots> \<le> 10 powr 323 * 4"
    using ten_powr_three_fifths by (intro mult_left_mono) simp_all
  also have "\<dots> = 4 * 10 ^ 323" by simp
  finally have up: "(10::real) powr (1618 / 5) < 2 ^ 1075" using two_1075_gt by linarith
  have pos: "0 < (10::real) powr (1618 / 5)" by simp
  have "1 / 2 ^ 1075 < 1 / (10::real) powr (1618 / 5)"
    using up pos by (intro divide_strict_left_mono) simp_all
  also have "\<dots> = 10 powr (- (1618 / 5))" by (simp add: powr_minus_divide)
  also have "\<dots> \<le> 10 powr a" using a by (intro powr_mono) simp_all
  finally show ?thesis by (simp only: DBL_TRUE_MIN_half)
qed

lemma float_pow_ten:
  "- (1618 / 5) \<le> a \<Longrightarrow> a \<le> 308 \<Longrightarrow> float_pow 10 a = Inr (10 powr a)"
  using ten_powr_upper [of a] ten_powr_lower [of a] by (simp add: float_pow_def)

lemma float_pow_square:
  "float_pow (10 powr x) 2 = float_pow 10 (2 * x)"
  by (simp add: float_pow_def powr_powr mult.commute)

lemma float_pow_zero_square: "float_pow 0 2 = Inr 0"
  by (simp add: float_pow_def DBL_MAX_def DBL_TRUE_MIN_def)

lemma float_pow_Inr: "float_pow x y = Inr p \<Longrightarrow> p = 0 \<or> p = x powr y"
  by (auto simp: float_pow_def split: if_splits)

text \<open>Where the code returns, it returns the clamped real quotient.\<close>

lemma exact_exptime_InrD:
  assumes "exact_exptime m = Inr v"
  shows "v = min 499 (max 40 (300 / 10 powr (2 * ((24.5 - m) / 2.5))))"
proof -
  let ?x = "(24.5 - m) / 2.5"
  from assms obtain p d where p: "float_pow 10 ?x = Inr p" and d: "float_pow p 2 = Inr d"
    and nz: "d \<noteq> 0" and v: "v = min 499 (max 40 (300 / d))"
    by (auto simp: exact_exptime_def split: sum.splits if_splits)
  have "p \<noteq> 0" using d nz float_pow_zero_square by auto
  then have "p = 10 powr ?x" using float_pow_Inr [OF p] by simp
  then have "float_pow 10 (2 * ?x) = Inr d" using d float_pow_square by simp
  then have "d = 10 powr (2 * ?x)" using float_pow_Inr nz by blast
  then show ?thesis using v by simp
qed

lemma exact_exptime_formula:
  assumes "- 360 \<le> m" "m \<le> 429"
  shows "exact_exptime m = Inr (min 499 (max 40 (300 / 10 powr (2 * ((24.5 - m) / 2.5)))))"
proof -
  let ?x = "(24.5 - m) / 2.5"
  have x: "- (1618 / 5) \<le> ?x" "?x \<le> 308" "- (1618 / 5) \<le> 2 * ?x" "2 * ?x \<le> 308"
    using assms by simp_all
  have p: "float_pow 10 ?x = Inr (10 powr ?x)" using x(1,2) by (rule float_pow_ten)
  have d: "float_pow (10 powr ?x) 2 = Inr (10 powr (2 * ?x))"
    unfolding float_pow_square using x(3,4) by (rule float_pow_ten)
  have "(10::real) powr (2 * ?x) \<noteq> 0" by simp
  then show ?thesis by (simp only: exact_exptime_def p d sum.case) simp
qed

lemma exact_exptime_range: "exact_exptime m = Inr x \<Longrightarrow> 40 \<le> x \<and> x \<le> 499"
  by (drule exact_exptime_InrD) simp

lemma exact_exptime_mono:
  assumes "m1 \<le> m2" "exact_exptime m1 = Inr x1" "exact_exptime m2 = Inr x2"
  shows "x1 \<le> x2"
proof -
  let ?d1 = "10 powr (2 * ((24.5 - m1) / 2.5))" and ?d2 = "10 powr (2 * ((24.5 - m2) / 2.5))"
  have "(?d2 :: real) \<le> ?d1"
    using assms(1) by (intro powr_mono) (simp_all add: divide_right_mono)
  moreover have "0 < (?d2 :: real)" by simp
  ultimately have "300 / ?d1 \<le> 300 / ?d2" by (intro divide_left_mono) simp_all
  then show ?thesis
    using exact_exptime_InrD [OF assms(2)] exact_exptime_InrD [OF assms(3)] by auto
qed

lemma exact_exptime_22: "exact_exptime 22 = Inr 40"
proof -
  have "exact_exptime 22 = Inr (min 499 (max 40 (300 / 10 powr (2 * ((24.5 - 22) / 2.5)))))"
    by (rule exact_exptime_formula) simp_all
  then show ?thesis by simp
qed

lemma exact_exptime_245: "exact_exptime 24.5 = Inr 300"
proof -
  have "exact_exptime 24.5 = Inr (min 499 (max 40 (300 / 10 powr (2 * ((24.5 - 24.5) / 2.5)))))"
    by (rule exact_exptime_formula) simp_all
  then show ?thesis by simp
qed

lemma exact_exptime_26: "exact_exptime 26 = Inr 499"
proof -
  have f: "exact_exptime 26 = Inr (min 499 (max 40 (300 / 10 powr (2 * ((24.5 - 26) / 2.5)))))"
    by (rule exact_exptime_formula) simp_all
  define d :: real where "d = 10 powr (2 * ((24.5 - 26) / 2.5))"
  have "d \<le> 10 powr (- 1)" unfolding d_def by (intro powr_mono) simp_all
  also have "\<dots> = 1 / 10" by (simp add: powr_minus_divide)
  finally have le: "d \<le> 1 / 10" .
  have pos: "0 < d" by (simp add: d_def)
  have "300 / (1 / 10) \<le> 300 / d" using le pos by (intro divide_left_mono) simp_all
  then have "499 \<le> 300 / d" by simp
  then show ?thesis using f unfolding d_def [symmetric] by simp
qed

lemma exact_exptime_430: "exact_exptime 430 = Inl ZeroDivisionError"
proof -
  let ?x = "(24.5 - 430) / 2.5 :: real"
  have p: "float_pow 10 ?x = Inr (10 powr ?x)" by (rule float_pow_ten) simp_all
  have "(10::real) powr (2 * ?x) \<le> 10 powr (- 324)" by (intro powr_mono) simp_all
  also have "\<dots> = 1 / 10 ^ 324" by (simp add: powr_minus_divide)
  also have "\<dots> \<le> 1 / 2 ^ 1075"
    using two_1075_le by (intro divide_left_mono) simp_all
  finally have small: "(10::real) powr (2 * ?x) \<le> DBL_TRUE_MIN / 2"
    by (simp only: DBL_TRUE_MIN_half)
  have "(10::real) powr (2 * ?x) \<le> 10 powr 308" by (intro powr_mono) simp_all
  then have "\<not> DBL_MAX < (10::real) powr (2 * ?x)" using DBL_MAX_ge by simp
  then have d: "float_pow (10 powr ?x) 2 = Inr 0"
    unfolding float_pow_square using small by (simp add: float_pow_def)
  show ?thesis by (simp only: exact_exptime_def p d sum.case) simp
qed

lemma exact_exptime_minus_361: "exact_exptime (- 361) = Inl OverflowError"
proof -
  let ?x = "(24.5 - (- 361)) / 2.5 :: real"
  have p: "float_pow 10 ?x = Inr (10 powr ?x)" by (rule float_pow_ten) simp_all
  have "2 * 10 ^ 308 = (10::real) powr 308 * 2" by simp
  also have "\<dots> \<le> 10 powr 308 * 10 powr (2 / 5)"
    using ten_powr_two_fifths by (intro mult_left_mono) simp_all
  also have "\<dots> = 10 powr (308 + 2 / 5)" by (simp only: powr_add)
  also have "\<dots> = 10 powr (2 * ?x)" by simp
  finally have "DBL_MAX < (10::real) powr (2 * ?x)" using DBL_MAX_lt by linarith
  then have d: "float_pow (10 powr ?x) 2 = Inl OverflowError"
    unfolding float_pow_square by (simp add: float_pow_def)
  show ?thesis by (simp only: exact_exptime_def p d sum.case)
qed

lemma exact_exptime_returns:
  "- 360 \<le> m \<Longrightarrow> m \<le> 429 \<Longrightarrow> \<exists>x. exact_exptime m = Inr x"
  using exact_exptime_formula by blast

lemma filter_count_mono:
  "(\<And>c. c \<in> set xs \<Longrightarrow> P c \<Longrightarrow> Q c) \<Longrightarrow> length (filter P xs) \<le> length (filter Q xs)"
  by (induction xs) auto

lemma exposure_time_index_InrD:
  assumes "exposure_time_index m = Inr i"
  shows "\<exists>x. exact_exptime m = Inr x
           \<and> i = int (length IC_exptimes)
                 - int (length (filter (\<lambda>c. x < real_of_int c) IC_exptimes))"
  using assms by (auto simp: exposure_time_index_def split: sum.splits)

lemma exposure_time_index_range:
  assumes "exposure_time_index m = Inr i"
  shows "1 \<le> i \<and> i \<le> 12"
proof -
  obtain x where x: "exact_exptime m = Inr x"
    and i: "i = int (length IC_exptimes)
                 - int (length (filter (\<lambda>c. x < real_of_int c) IC_exptimes))"
    using exposure_time_index_InrD [OF assms] by blast
  have r: "40 \<le> x" "x \<le> 499" using exact_exptime_range [OF x] by simp_all
  let ?P = "\<lambda>c. x < real_of_int c"
  have "filter ?P IC_exptimes = filter ?P (tl IC_exptimes)"
    using r(1) by (simp add: IC_exptimes_def)
  then have "length (filter ?P IC_exptimes) \<le> 12"
    using length_filter_le [of ?P "tl IC_exptimes"] by (simp add: IC_exptimes_def)
  moreover have "500 \<in> set (filter ?P IC_exptimes)"
    using r(2) by (simp add: IC_exptimes_def)
  then have "1 \<le> length (filter ?P IC_exptimes)"
    by (cases "filter ?P IC_exptimes") simp_all
  moreover have "length IC_exptimes = 13" by (simp add: IC_exptimes_def)
  ultimately show ?thesis using i by simp
qed

lemma IC_exptimes_nth_range:
  assumes "1 \<le> i" "i \<le> 12"
  shows "py_index IC_exptimes i = Inr (IC_exptimes ! nat i) \<and> 80 \<le> IC_exptimes ! nat i \<and> IC_exptimes ! nat i \<le> 500"
proof -
  define k where "k = nat i - 1"
  have k: "nat i = Suc k" "k < length (tl IC_exptimes)"
    using assms by (simp_all add: k_def IC_exptimes_def)
  have "IC_exptimes ! nat i = tl IC_exptimes ! k"
    using k by (simp add: IC_exptimes_def)
  then have "IC_exptimes ! nat i \<in> set (tl IC_exptimes)"
    using k(2) nth_mem by metis
  then have "80 \<le> IC_exptimes ! nat i \<and> IC_exptimes ! nat i \<le> 500"
    by (auto simp: IC_exptimes_def)
  moreover have "py_index IC_exptimes i = Inr (IC_exptimes ! nat i)"
    using assms by (simp add: py_index_def IC_exptimes_def)
  ultimately show ?thesis by simp
qed

lemma sorted_IC_exptimes: "sorted IC_exptimes"
  by (simp add: IC_exptimes_def)

text \<open>Once the index is computed, the table lookup cannot raise.\<close>

lemma exposure_time_of_index:
  assumes "exposure_time_index m = Inr i"
  shows "exposure_time m = Inr (IC_exptimes ! nat i)
         \<and> 80 \<le> IC_exptimes ! nat i \<and> IC_exptimes ! nat i \<le> 500"
  using exposure_time_index_range [OF assms] IC_exptimes_nth_range [of i] assms
  by (simp add: exposure_time_def)

lemma exposure_time_InrD:
  assumes "exposure_time m = Inr v"
  shows "\<exists>i. exposure_time_index m = Inr i \<and> v = IC_exptimes ! nat i"
proof -
  from assms obtain i where i: "exposure_time_index m = Inr i"
    by (auto simp: exposure_time_def split: sum.splits)
  then show ?thesis using exposure_time_of_index [OF i] assms by simp
qed

lemma exposure_time_range:
  "exposure_time m = Inr v \<Longrightarrow> 80 \<le> v \<and> v \<le> 500"
  using exposure_time_InrD exposure_time_of_index by blast

lemma exposure_time_index_returns:
  "- 360 \<le> m \<Longrightarrow> m \<le> 429 \<Longrightarrow> \<exists>i. exposure_time_index m = Inr i"
  using exact_exptime_returns [of m] by (auto simp: exposure_time_index_def)

lemma exposure_time_returns:
  "- 360 \<le> m \<Longrightarrow> m \<le> 429 \<Longrightarrow> \<exists>v. exposure_time m = Inr v"
  using exposure_time_index_returns exposure_time_of_index by blast

lemma exposure_time_mono:
  assumes "m1 \<le> m2" "exposure_time m1 = Inr a" "exposure_time m2 = Inr b"
  shows "a \<le> b"
proof -
  obtain i1 where i1: "exposure_time_index m1 = Inr i1" "a = IC_exptimes ! nat i1"
    using exposure_time_InrD [OF assms(2)] by blast
  obtain i2 where i2: "exposure_time_index m2 = Inr i2" "b = IC_exptimes ! nat i2"
    using exposure_time_InrD [OF assms(3)] by blast
  obtain x1 where x1: "exact_exptime m1 = Inr x1"
    "i1 = int (length IC_exptimes) - int (length (filter (\<lambda>c. x1 < real_of_int c) IC_exptimes))"
    using exposure_time_index_InrD [OF i1(1)] by blast
  obtain x2 where x2: "exact_exptime m2 = Inr x2"
    "i2 = int (length IC_exptimes) - int (length (filter (\<lambda>c. x2 < real_of_int c) IC_exptimes))"
    using exposure_time_index_InrD [OF i2(1)] by blast
  have le: "x1 \<le> x2" using exact_exptime_mono [OF assms(1) x1(1) x2(1)] .
  have "length (filter (\<lambda>c. x2 < real_of_int c) IC_exptimes)
        \<le> length (filter (\<lambda>c. x1 < real_of_int c) IC_exptimes)"
    using le by (intro filter_count_mono) simp
  then have "i1 \<le> i2" using x1(2) x2(2) by simp
  then have "nat i1 \<le> nat i2" by simp
  moreover have "length IC_exptimes = 13" by (simp add: IC_exptimes_def)
  then have "nat i2 < length IC_exptimes"
    using exposure_time_index_range [OF i2(1)] by arith
  ultimately have "IC_exptimes ! nat i1 \<le> IC_exptimes ! nat i2"
    using sorted_IC_exptimes sorted_nth_mono by blast
  then show ?thesis using i1(2) i2(2) by simp
qed

lemma exposure_time_index_22: "exposure_time_index 22 = Inr 1"
  unfolding exposure_time_index_def exact_exptime_22 by (simp add: IC_exptimes_def)

lemma exposure_time_index_245: "exposure_time_index 24.5 = Inr 7"
  unfolding exposure_time_index_def exact_exptime_245 by (simp add: IC_exptimes_def)

lemma exposure_time_index_26: "exposure_time_index 26 = Inr 12"
  unfolding exposure_time_index_def exact_exptime_26 by (simp add: IC_exptimes_def)

lemma exposure_time_at_22: "exposure_time 22 = Inr 80"
  unfolding exposure_time_def exposure_time_index_22 by (simp add: py_index_def IC_exptimes_def)

lemma exposure_time_at_245: "exposure_time 24.5 = Inr 340"
  unfolding exposure_time_def exposure_time_index_245 by (simp add: py_index_def IC_exptimes_def)

lemma exposure_time_at_26: "exposure_time 26 = Inr 500"
  unfolding exposure_time_def exposure_time_index_26 by (simp add: py_index_def IC_exptimes_def)

lemma exposure_time_index_430: "exposure_time_index 430 = Inl ZeroDivisionError"
  unfolding exposure_time_index_def exact_exptime_430 by simp

lemma exposure_time_index_minus_361: "exposure_time_index (- 361) = Inl OverflowError"
  unfolding exposure_time_index_def exact_exptime_minus_361 by simp

text \<open>
  Claim C10 fails on the code at magnitudes far outside those of any sky object: at
  magnitude 430 the square of the flux ratio has become \<^verbatim>\<open>0.0\<close> and the division
  raises \<^verbatim>\<open>ZeroDivisionError\<close>; at magnitude -361 the square raises
  \<^verbatim>\<open>OverflowError\<close>. No index and no exposure time is returned.
\<close>

theorem exposure_time_raises_at_extremes:
  "exposure_time_index 430 = Inl ZeroDivisionError
   \<and> exposure_time 430 = Inl ZeroDivisionError
   \<and> exposure_time_index (- 361) = Inl OverflowError
   \<and> exposure_time (- 361) = Inl OverflowError"
  unfolding exposure_time_def exposure_time_index_430 exposure_time_index_minus_361 by simp

text \<open>
  Claim C10 as amended. For every magnitude from -360 to 429, \<open>exposure_time_index\<close>
  returns an index between 1 and 12 and \<open>exposure_time\<close> returns a value between 80 and
  500 seconds. At any magnitude, whenever \<open>exposure_time_index\<close> returns, its index is
  between 1 and 12, inside the 13-entry table and never 0, and \<open>exposure_time\<close> then
  returns the table entry at that index, between 80 and 500 seconds and never the first
  entry of 40 seconds.
\<close>

theorem exposure_time_index_in_range:
  "(- 360 \<le> m \<and> m \<le> 429
      \<longrightarrow> (\<exists>i. exposure_time_index m = Inr i \<and> 1 \<le> i \<and> i \<le> 12)
          \<and> (\<exists>v. exposure_time m = Inr v \<and> 80 \<le> v \<and> v \<le> 500 \<and> v \<noteq> 40))
   \<and> (exposure_time_index m = Inr i
      \<longrightarrow> 1 \<le> i \<and> i \<le> 12 \<and> i < int (length IC_exptimes)
          \<and> (\<exists>v. exposure_time m = Inr v \<and> 80 \<le> v \<and> v \<le> 500 \<and> v \<noteq> 40))"
proof (intro conjI impI)
  assume "- 360 \<le> m \<and> m \<le> 429"
  then obtain j where j: "exposure_time_index m = Inr j"
    using exposure_time_index_returns by blast
  show "\<exists>i. exposure_time_index m = Inr i \<and> 1 \<le> i \<and> i \<le> 12"
    using j exposure_time_index_range [OF j] by blast
  show "\<exists>v. exposure_time m = Inr v \<and> 80 \<le> v \<and> v \<le> 500 \<and> v \<noteq> 40"
    using exposure_time_of_index [OF j] by auto
next
  assume i: "exposure_time_index m = Inr i"
  show "1 \<le> i" "i \<le> 12" using exposure_time_index_range [OF i] by simp_all
  then show "i < int (length IC_exptimes)" by (simp add: IC_exptimes_def)
  show "\<exists>v. exposure_time m = Inr v \<and> 80 \<le> v \<and> v \<le> 500 \<and> v \<noteq> 40"
    using exposure_time_of_index [OF i] by auto
qed

theorem exposure_time_index_in_range_witness:
  "(- 360 :: real) \<le> 22 \<and> (22 :: real) \<le> 429
   \<and> exposure_time_index 22 = Inr 1 \<and> exposure_time 22 = Inr 80
   \<and> (1 :: int) \<le> 12 \<and> (1 :: int) < int (length IC_exptimes)
   \<and> (80 :: int) \<le> 500 \<and> (80 :: int) \<noteq> 40"
  using exposure_time_index_in_range [of 22 1] exposure_time_index_22 exposure_time_at_22
  by (simp add: IC_exptimes_def)

text \<open>
  Claim C9. The selected exposure time is monotone in the magnitude wherever the code
  returns: for magnitudes \<open>m1 < m2\<close> at which both selections return, the exposure time
  for \<open>m1\<close> is at most the one for \<open>m2\<close>; and both selections do return when the
  magnitudes lie between -360 and 429.
\<close>

theorem exposure_time_monotone:
  assumes "m1 < m2"
  shows "(exposure_time m1 = Inr a \<and> exposure_time m2 = Inr b \<longrightarrow> a \<le> b)
       \<and> (- 360 \<le> m1 \<and> m2 \<le> 429
          \<longrightarrow> (\<exists>a b. exposure_time m1 = Inr a \<and> exposure_time m2 = Inr b \<and> a \<le> b))"
proof (intro conjI impI)
  assume "exposure_time m1 = Inr a \<and> exposure_time m2 = Inr b"
  then show "a \<le> b" using exposure_time_mono [of m1 m2 a b] assms by simp
next
  assume r: "- 360 \<le> m1 \<and> m2 \<le> 429"
  then have "- 360 \<le> m1" "m1 \<le> 429" "- 360 \<le> m2" "m2 \<le> 429" using assms by simp_all
  then obtain a' b' where ab: "exposure_time m1 = Inr a'" "exposure_time m2 = Inr b'"
    using exposure_time_returns by blast
  then have "a' \<le> b'" using exposure_time_mono [of m1 m2 a' b'] assms by simp
  then show "\<exists>a b. exposure_time m1 = Inr a \<and> exposure_time m2 = Inr b \<and> a \<le> b"
    using ab by blast
qed

theorem exposure_time_monotone_witness:
  "(22::real) < 24.5 \<and> exposure_time 22 = Inr 80 \<and> exposure_time 24.5 = Inr 340
   \<and> (80 :: int) \<le> 340 \<and> (- 360 :: real) \<le> 22 \<and> (24.5 :: real) \<le> 429"
  using exposure_time_monotone [of 22 "24.5" 80 340] exposure_time_at_22 exposure_time_at_245
  by simp

text \<open>
  Claim C4, evaluated on the code. At magnitude 22 the clamped ideal exposure is 40 seconds
  and the code selects index 1, 80 seconds, not the first table entry of 40 seconds; at
  magnitude 24.5 the ideal is 300 seconds and the code selects index 7, 340 seconds; at
  magnitude 26 the clamped ideal is 499 seconds and the code selects the last entry,
  500 seconds.
\<close>

theorem exposure_time_bright_bucket:
  "exact_exptime 22 = Inr 40 \<and> exposure_time_index 22 = Inr 1 \<and> exposure_time 22 = Inr 80
   \<and> exact_exptime 24.5 = Inr 300 \<and> exposure_time_index 24.5 = Inr 7 \<and> exposure_time 24.5 = Inr 340
   \<and> exact_exptime 26 = Inr 499 \<and> exposure_time_index 26 = Inr 12 \<and> exposure_time 26 = Inr 500"
  using exact_exptime_22 exposure_time_index_22 exposure_time_at_22
    exact_exptime_245 exposure_time_index_245 exposure_time_at_245
    exact_exptime_26 exposure_time_index_26 exposure_time_at_26
  by (intro conjI)

section \<open>Properties of the visibility windows\<close>

lemma parse_rows_append:
  "parse_rows ss sr (xs @ ys) good =
     (case parse_rows ss sr xs good of Inl e \<Rightarrow> Inl e | Inr g \<Rightarrow> parse_rows ss sr ys g)"
  by (induction xs arbitrary: good) (auto split: sum.splits visibility.splits)

text \<open>
  Claim C5. When \<^verbatim>\<open>start\<close> and \<^verbatim>\<open>end\<close> are set and \<open>end - start\<close> is below one hour,
  the target is skipped. When a target is accepted, \<^verbatim>\<open>start\<close> and \<^verbatim>\<open>end\<close> are set,
  the window has \<open>start \<le> end\<close>, lasts at least one hour and lies inside the darkness
  interval from sunset to sunrise; it was set by one of the three rise/set orderings, which
  the last conjunct lists.
\<close>

theorem visibility_window_contained:
  "(start_end sun_set sun_rise t_rise t_set = (Some s, Some e) \<and> e - s < MINIMUM_UP_TIME
      \<longrightarrow> visibility_window sun_set sun_rise t_rise t_set = Inr Skipped)
   \<and> (visibility_window sun_set sun_rise t_rise t_set = Inr (Accepted start end')
      \<longrightarrow> (\<exists>s e. start = Some s \<and> end' = Some e
            \<and> s \<le> e \<and> sun_set \<le> s \<and> e \<le> sun_rise \<and> MINIMUM_UP_TIME \<le> e - s
            \<and> ((sun_rise < t_rise \<and> sun_set < t_set \<and> s = sun_set)
                \<or> (t_rise \<le> sun_rise \<and> t_rise < sun_set \<and> s = sun_set)
                \<or> (sun_set < t_rise \<and> t_rise < sun_rise \<and> s = t_rise))))"
  by (auto simp: visibility_window_def start_end_def up_duration_def MINIMUM_UP_TIME_def
      split: if_splits)

theorem visibility_window_contained_witness:
  "visibility_window 0 36000 40000 7200 = Inr (Accepted (Some 0) (Some 7200))
   \<and> visibility_window 0 36000 (- 3600) 20000 = Inr (Accepted (Some 0) (Some 20000))
   \<and> visibility_window 0 36000 3600 50000 = Inr (Accepted (Some 3600) (Some 36000))
   \<and> start_end 0 36000 3600 5000 = (Some 3600, Some 5000)
   \<and> visibility_window 0 36000 3600 5000 = Inr Skipped
   \<and> (0::int) \<le> 7200 \<and> (7200::int) \<le> 36000 \<and> (3600::int) \<le> 36000"
  using visibility_window_contained [of 0 36000 40000 7200 0 7200 "Some 0" "Some 7200"]
    visibility_window_contained [of 0 36000 "- 3600" 20000 0 20000 "Some 0" "Some 20000"]
    visibility_window_contained [of 0 36000 3600 50000 3600 36000 "Some 3600" "Some 36000"]
    visibility_window_contained [of 0 36000 3600 5000 3600 5000 "Some 3600" "Some 5000"]
  by (simp add: visibility_window_def start_end_def up_duration_def MINIMUM_UP_TIME_def)

text \<open>
  Claim C3, evaluated on the code. A target that rises after sunrise and sets before
  sunset leaves \<^verbatim>\<open>start\<close> and \<^verbatim>\<open>end\<close> at \<^verbatim>\<open>None\<close>; the subtraction raises
  \<^verbatim>\<open>TypeError\<close>, and the exception ends \<open>parse_recon_table\<close>: the next row, which
  would be accepted on its own, is never reached.
\<close>

theorem no_window_raises:
  "start_end 0 36000 40000 (- 3600) = (None, None)
   \<and> visibility_window 0 36000 40000 (- 3600) = Inl TypeError
   \<and> parse_recon_table 0 36000
        [\<lparr>name = ''2004 XR190'', lookup = Inr \<lparr>rise_time = 40000, set_time = - 3600, mag = 22\<rparr>\<rparr>,
         \<lparr>name = ''2015 RR245'', lookup = Inr \<lparr>rise_time = 3600, set_time = 50000, mag = 22\<rparr>\<rparr>]
       = Inl TypeError
   \<and> parse_recon_table 0 36000
        [\<lparr>name = ''2015 RR245'', lookup = Inr \<lparr>rise_time = 3600, set_time = 50000, mag = 22\<rparr>\<rparr>]
       = Inr [''2015 RR245'']"
  by (simp add: parse_recon_table_def visibility_window_def start_end_def up_duration_def
      MINIMUM_UP_TIME_def)

text \<open>
  Claim C2 fails on the code: a batch whose first lookup raises returns the exception, not
  the target that the rest of the batch yields.
\<close>

theorem lookup_failure_aborts_batch:
  "parse_recon_table 0 36000
        [\<lparr>name = ''2004 XR190'', lookup = Inl EphemerisError\<rparr>,
         \<lparr>name = ''2015 RR245'', lookup = Inr \<lparr>rise_time = 3600, set_time = 50000, mag = 22\<rparr>\<rparr>]
       = Inl EphemerisError
   \<and> parse_recon_table 0 36000
        [\<lparr>name = ''2015 RR245'', lookup = Inr \<lparr>rise_time = 3600, set_time = 50000, mag = 22\<rparr>\<rparr>]
       = Inr [''2015 RR245'']"
  by (simp add: parse_recon_table_def visibility_window_def start_end_def up_duration_def
      MINIMUM_UP_TIME_def)

text \<open>
  Claim C2 as amended. When the lookup of a row raises and the rows before it were
  processed without an exception, \<open>parse_recon_table\<close> raises that exception, whatever
  rows follow: the failure is not caught, and no list of targets is returned.
\<close>

theorem lookup_failure_propagates:
  assumes "lookup row = Inl e"
    and "parse_recon_table sun_set sun_rise before = Inr good"
  shows "parse_recon_table sun_set sun_rise (before @ row # after) = Inl e"
  using assms by (simp add: parse_recon_table_def parse_rows_append)

theorem lookup_failure_propagates_witness:
  "lookup \<lparr>name = ''2004 XR190'', lookup = Inl EphemerisError\<rparr> = Inl EphemerisError
   \<and> parse_recon_table 0 36000
        [\<lparr>name = ''2015 RR245'', lookup = Inr \<lparr>rise_time = 3600, set_time = 50000, mag = 22\<rparr>\<rparr>]
       = Inr [''2015 RR245'']
   \<and> parse_recon_table 0 36000
        ([\<lparr>name = ''2015 RR245'', lookup = Inr \<lparr>rise_time = 3600, set_time = 50000, mag = 22\<rparr>\<rparr>]
         @ \<lparr>name = ''2004 XR190'', lookup = Inl EphemerisError\<rparr>
         # [\<lparr>name = ''2013 FY27'', lookup = Inr \<lparr>rise_time = 3600, set_time = 50000, mag = 22\<rparr>\<rparr>])
       = Inl EphemerisError"
proof -
  have a: "lookup \<lparr>name = ''2004 XR190'', lookup = Inl EphemerisError\<rparr> = Inl EphemerisError"
    by simp
  have b: "parse_recon_table 0 36000
        [\<lparr>name = ''2015 RR245'', lookup = Inr \<lparr>rise_time = 3600, set_time = 50000, mag = 22\<rparr>\<rparr>]
       = Inr [''2015 RR245'']"
    by (simp add: parse_recon_table_def visibility_window_def start_end_def up_duration_def
      MINIMUM_UP_TIME_def)
  show ?thesis using a b lookup_failure_propagates [OF a b] by simp
qed

section \<open>Properties of the scheduling loops\<close>

text \<open>What one pass can do: nothing, or admit exactly one target that passed the separation test.\<close>

lemma og_scan_cases:
  assumes "og_scan ovh sep ts s = Inr s'"
  shows "(scheduled s' = scheduled s \<and> og_itime s' = og_itime s \<and> components s' = components s)
       \<or> (\<exists>t e c. t \<in> set ts \<and> token t \<notin> set (scheduled s)
             \<and> exposure_time (magnitude t) = Inr e
             \<and> scheduled s' = token t # scheduled s
             \<and> og_itime s' = og_itime s + (e + ovh)
             \<and> components s' = components s @ [token t]
             \<and> og_coord s' = Some c \<and> sep (coordinate t) c \<le> 10)"
  using assms
proof (induction ts arbitrary: s)
  case Nil
  then show ?case by simp
next
  case (Cons t ts)
  show ?case
  proof (cases "token t \<in> set (scheduled s)")
    case True
    then have "og_scan ovh sep ts s = Inr s'" using Cons.prems by simp
    from Cons.IH [OF this] show ?thesis by auto
  next
    case False
    define c where "c = (case og_coord s of None \<Rightarrow> coordinate t | Some c' \<Rightarrow> c')"
    show ?thesis
    proof (cases "sep (coordinate t) c > 10")
      case True
      then have "og_scan ovh sep ts (s\<lparr>og_coord := Some c\<rparr>) = Inr s'"
        using Cons.prems False by (simp add: c_def Let_def)
      from Cons.IH [OF this] show ?thesis by auto
    next
      case far: False
      obtain e where e: "exposure_time (magnitude t) = Inr e"
        using Cons.prems False far by (cases "exposure_time (magnitude t)") (simp_all add: c_def Let_def)
      have "s' = s\<lparr>og_coord := Some c,
                    scheduled := List.insert (token t) (scheduled s),
                    og_itime := og_itime s + (e + ovh),
                    components := components s @ [token t]\<rparr>"
        using Cons.prems False far e by (simp add: c_def Let_def)
      then show ?thesis using False far e by auto
    qed
  qed
qed

text \<open>A pass that starts without an anchor admits the first target that is not yet scheduled.\<close>

lemma og_scan_first_unscheduled:
  assumes "\<forall>x \<in> set pre. token x \<in> set (scheduled s)"
    and "token t \<notin> set (scheduled s)"
    and "og_coord s = None"
    and "sep (coordinate t) (coordinate t) \<le> 10"
    and "exposure_time (magnitude t) = Inr e"
  shows "og_scan ovh sep (pre @ t # post) s =
           Inr (s\<lparr>og_coord := Some (coordinate t),
                   scheduled := token t # scheduled s,
                   og_itime := og_itime s + (e + ovh),
                   components := components s @ [token t]\<rparr>)"
  using assms by (induction pre) (simp_all add: Let_def)

lemma split_first_unscheduled:
  assumes "\<exists>t \<in> set ts. token t \<notin> set sch"
  shows "\<exists>pre t post. ts = pre @ t # post \<and> (\<forall>x \<in> set pre. token x \<in> set sch) \<and> token t \<notin> set sch"
proof -
  from assms have "\<exists>x \<in> set ts. \<not> (token x \<in> set sch)" by simp
  from split_list_first_prop [OF this]
  obtain pre t post where "ts = pre @ t # post" "\<not> (token t \<in> set sch)"
    "\<forall>x \<in> set pre. \<not> \<not> (token x \<in> set sch)" by blast
  then show ?thesis by auto
qed

lemma og_scan_progress:
  assumes "\<exists>t \<in> set ts. token t \<notin> set (scheduled s)"
    and "og_coord s = None"
    and "\<forall>c. sep c c \<le> 10"
    and "\<forall>t \<in> set ts. \<exists>e. exposure_time (magnitude t) = Inr e"
  shows "\<exists>s'. og_scan ovh sep ts s = Inr s' \<and> length (scheduled s') = Suc (length (scheduled s))"
proof -
  obtain pre t post where sp: "ts = pre @ t # post"
    "\<forall>x \<in> set pre. token x \<in> set (scheduled s)" "token t \<notin> set (scheduled s)"
    using split_first_unscheduled [OF assms(1)] by blast
  obtain e where e: "exposure_time (magnitude t) = Inr e" using assms(4) sp(1) by auto
  have "sep (coordinate t) (coordinate t) \<le> 10" using assms(3) by blast
  then have "og_scan ovh sep (pre @ t # post) s =
           Inr (s\<lparr>og_coord := Some (coordinate t),
                   scheduled := token t # scheduled s,
                   og_itime := og_itime s + (e + ovh),
                   components := components s @ [token t]\<rparr>)"
    using sp(2,3) assms(2) e by (intro og_scan_first_unscheduled)
  then show ?thesis using sp(1) by simp
qed

subsection \<open>Decimal rendering and tokens\<close>

lemma digit_char_in_digits: "d < 10 \<Longrightarrow> digit_char d \<in> set ''0123456789''"
  unfolding digit_char_def by (rule nth_mem) simp

lemma digit_char_inj: "a < 10 \<Longrightarrow> b < 10 \<Longrightarrow> digit_char a = digit_char b \<Longrightarrow> a = b"
proof -
  assume a: "a < 10" and b: "b < 10" and eq: "digit_char a = digit_char b"
  have d: "distinct ''0123456789''" by simp
  have "a < length ''0123456789''" "b < length ''0123456789''" using a b by simp_all
  then show "a = b" using eq d unfolding digit_char_def by (simp only: nth_eq_iff_index_eq)
qed

lemma str_nat_digits: "set (str_nat n) \<subseteq> set ''0123456789''"
proof (induction n rule: str_nat.induct)
  case (1 n)
  show ?case
  proof (cases "n < 10")
    case True
    then show ?thesis using digit_char_in_digits [of n] by (subst str_nat.simps) simp
  next
    case False
    have "n mod 10 < 10" by simp
    then have "digit_char (n mod 10) \<in> set ''0123456789''" by (rule digit_char_in_digits)
    then show ?thesis using False "1.IH" by (subst str_nat.simps) simp
  qed
qed

lemma str_nat_not_Nil: "str_nat n \<noteq> []"
  by (subst str_nat.simps) simp

lemma str_nat_inj: "str_nat m = str_nat n \<Longrightarrow> m = n"
proof (induction m arbitrary: n rule: str_nat.induct)
  case (1 m)
  show ?case
  proof (cases "m < 10")
    case m: True
    show ?thesis
    proof (cases "n < 10")
      case True
      then show ?thesis using m "1.prems" digit_char_inj [of m n]
        by (simp add: str_nat.simps [of m] str_nat.simps [of n])
    next
      case False
      then show ?thesis using m "1.prems" str_nat_not_Nil [of "n div 10"]
        by (simp add: str_nat.simps [of m] str_nat.simps [of n])
    qed
  next
    case m: False
    show ?thesis
    proof (cases "n < 10")
      case True
      then show ?thesis using m "1.prems" str_nat_not_Nil [of "m div 10"]
        by (simp add: str_nat.simps [of m] str_nat.simps [of n])
    next
      case False
      then have eq: "str_nat (m div 10) = str_nat (n div 10)" "digit_char (m mod 10) = digit_char (n mod 10)"
        using m "1.prems" by (simp_all add: str_nat.simps [of m] str_nat.simps [of n])
      have "m div 10 = n div 10" using "1.IH" [OF m eq(1)] .
      moreover have "m mod 10 = n mod 10" using digit_char_inj [OF _ _ eq(2)] by simp
      ultimately show ?thesis by (metis div_mult_mod_eq)
    qed
  qed
qed

lemma dash_not_in_str_nat: "CHR ''-'' \<notin> set (str_nat n)"
  using str_nat_digits [of n] by auto

lemma underscore_not_in_str_nat: "CHR ''_'' \<notin> set (str_nat n)"
  using str_nat_digits [of n] by auto

lemma og_name_inj: "og_name q i k = og_name q i' k' \<Longrightarrow> i = i' \<and> k = k'"
proof -
  assume "og_name q i k = og_name q i' k'"
  then have "str_nat i @ CHR ''-'' # str_nat k = str_nat i' @ CHR ''-'' # str_nat k'"
    by (simp add: og_name_def)
  then have "str_nat i = str_nat i' \<and> str_nat k = str_nat k'"
    using dash_not_in_str_nat append_Cons_eq_iff by metis
  then show ?thesis using str_nat_inj by blast
qed

lemma ph2_og_token_inj: "ph2_og_token r q i k = ph2_og_token r q i' k' \<Longrightarrow> i = i' \<and> k = k'"
proof -
  assume "ph2_og_token r q i k = ph2_og_token r q i' k'"
  then have "str_nat i @ CHR ''_'' # str_nat k = str_nat i' @ CHR ''_'' # str_nat k'"
    by (simp add: ph2_og_token_def)
  then have "str_nat i = str_nat i' \<and> str_nat k = str_nat k'"
    using underscore_not_in_str_nat append_Cons_eq_iff by metis
  then show ?thesis using str_nat_inj by blast
qed

lemma str_nat_digit: "n < 10 \<Longrightarrow> str_nat n = [digit_char n]"
  by (subst str_nat.simps) simp

subsection \<open>Passes and the loop\<close>

lemma og_scan_skip_scheduled:
  "\<forall>x \<in> set pre. token x \<in> set (scheduled s) \<Longrightarrow> og_scan ovh sep (pre @ ts) s = og_scan ovh sep ts s"
  by (induction pre) simp_all

lemma og_scan_anchor_kept:
  "og_coord s = Some c \<Longrightarrow> og_scan ovh sep ts s = Inr s' \<Longrightarrow> og_coord s' = Some c"
proof (induction ts arbitrary: s)
  case Nil
  then show ?case by simp
next
  case (Cons t ts)
  show ?case
  proof (cases "token t \<in> set (scheduled s)")
    case True
    then show ?thesis using Cons by simp
  next
    case False
    show ?thesis
    proof (cases "sep (coordinate t) c > 10")
      case True
      then have "og_scan ovh sep ts (s\<lparr>og_coord := Some c\<rparr>) = Inr s'"
        using Cons.prems False by (simp add: Let_def)
      then show ?thesis using Cons.IH [of "s\<lparr>og_coord := Some c\<rparr>"] by simp
    next
      case far: False
      then show ?thesis using Cons.prems False by (auto simp: Let_def split: sum.splits)
    qed
  qed
qed

text \<open>The group that one pass forms, starting from the variables as the loop resets them.\<close>

lemma og_scan_fresh:
  assumes "og_scan ovh sep targets
             \<lparr>scheduled = sch, og_coord = None, og_itime = 0, components = []\<rparr> = Inr s"
  shows "(components s = [] \<and> og_itime s = 0 \<and> scheduled s = sch)
       \<or> (\<exists>pre a post t e. targets = pre @ a # post
             \<and> (\<forall>x \<in> set pre. token x \<in> set sch) \<and> token a \<notin> set sch
             \<and> og_coord s = Some (coordinate a)
             \<and> t \<in> set targets \<and> token t \<notin> set sch \<and> components s = [token t]
             \<and> scheduled s = token t # sch
             \<and> sep (coordinate t) (coordinate a) \<le> 10
             \<and> exposure_time (magnitude t) = Inr e \<and> og_itime s = e + ovh)"
proof (cases "\<exists>t \<in> set targets. token t \<notin> set sch")
  case False
  then have "\<forall>x \<in> set targets. token x \<in> set (scheduled \<lparr>scheduled = sch, og_coord = None, og_itime = 0, components = []\<rparr>)"
    by simp
  from og_scan_skip_scheduled [OF this, of ovh sep "[]"]
  have "s = \<lparr>scheduled = sch, og_coord = None, og_itime = 0, components = []\<rparr>"
    using assms by simp
  then show ?thesis by simp
next
  case True
  let ?s0 = "\<lparr>scheduled = sch, og_coord = None, og_itime = 0, components = []\<rparr>"
  obtain pre a post where sp: "targets = pre @ a # post"
    "\<forall>x \<in> set pre. token x \<in> set sch" "token a \<notin> set sch"
    using split_first_unscheduled [OF True] by blast
  have "og_scan ovh sep (pre @ a # post) ?s0 = og_scan ovh sep (a # post) ?s0"
    using sp(2) by (intro og_scan_skip_scheduled) simp
  then have run: "og_scan ovh sep (a # post) ?s0 = Inr s" using assms sp(1) by simp
  show ?thesis
  proof (cases "sep (coordinate a) (coordinate a) > 10")
    case False
    obtain e where e: "exposure_time (magnitude a) = Inr e"
      using run sp(3) False by (cases "exposure_time (magnitude a)") (simp_all add: Let_def)
    from False have "s = ?s0\<lparr>og_coord := Some (coordinate a),
                    scheduled := List.insert (token a) sch,
                    og_itime := e + ovh,
                    components := [token a]\<rparr>"
      using run sp(3) e by (simp add: Let_def)
    then have "og_coord s = Some (coordinate a)" "components s = [token a]"
      "scheduled s = token a # sch" "og_itime s = e + ovh"
      using sp(3) by simp_all
    moreover have "a \<in> set targets" using sp(1) by simp
    ultimately show ?thesis using sp e False by (intro disjI2 exI [of _ pre] exI [of _ a] exI [of _ post] exI [of _ e]) simp
  next
    case True
    let ?s1 = "?s0\<lparr>og_coord := Some (coordinate a)\<rparr>"
    have run1: "og_scan ovh sep post ?s1 = Inr s"
      using run sp(3) True by (simp add: Let_def)
    have anchor: "og_coord s = Some (coordinate a)"
      using og_scan_anchor_kept [OF _ run1] by simp
    from og_scan_cases [OF run1]
    show ?thesis
    proof
      assume "scheduled s = scheduled ?s1 \<and> og_itime s = og_itime ?s1 \<and> components s = components ?s1"
      then show ?thesis by simp
    next
      assume "\<exists>t e c. t \<in> set post \<and> token t \<notin> set (scheduled ?s1)
             \<and> exposure_time (magnitude t) = Inr e
             \<and> scheduled s = token t # scheduled ?s1
             \<and> og_itime s = og_itime ?s1 + (e + ovh)
             \<and> components s = components ?s1 @ [token t]
             \<and> og_coord s = Some c \<and> sep (coordinate t) c \<le> 10"
      then obtain t e' c where t: "t \<in> set post" "token t \<notin> set sch"
        "exposure_time (magnitude t) = Inr e'" "scheduled s = token t # sch"
        "og_itime s = e' + ovh" "components s = [token t]"
        "og_coord s = Some c" "sep (coordinate t) c \<le> 10"
        by auto
      have "c = coordinate a" using anchor t(7) by simp
      moreover have "t \<in> set targets" using t(1) sp(1) by simp
      ultimately show ?thesis using sp t anchor
        by (intro disjI2 exI [of _ pre] exI [of _ a] exI [of _ post] exI [of _ t] exI [of _ e']) simp
    qed
  qed
qed

lemma og_body_Inr:
  assumes "og_body ovh sep emit targets r = Inr r'"
  shows "\<exists>s. og_scan ovh sep targets
               \<lparr>scheduled = run_scheduled r, og_coord = None, og_itime = 0, components = []\<rparr> = Inr s
          \<and> r' = \<lparr>run_scheduled = scheduled s, og_idx = Suc (og_idx r),
                  total_itime = total_itime r
                     + sum_list (map duration (emit (Suc (og_idx r)) (components s) (og_itime s))),
                  persisted = persisted r @ emit (Suc (og_idx r)) (components s) (og_itime s)\<rparr>"
  using assms by (auto simp: og_body_def Let_def split: sum.splits)

lemma og_loop_invariant:
  assumes "og_loop fuel ovh sep emit targets n r = Some (Inr r')"
    and "I r"
    and step: "\<And>r1 r2. I r1 \<Longrightarrow> og_body ovh sep emit targets r1 = Inr r2 \<Longrightarrow> I r2"
  shows "I r'"
  using assms(1,2)
proof (induction fuel arbitrary: r)
  case 0
  then show ?case by (simp split: if_splits)
next
  case (Suc fuel)
  show ?case
  proof (cases "length (run_scheduled r) < n")
    case False
    then show ?thesis using Suc.prems by simp
  next
    case True
    then obtain r1 where r1: "og_body ovh sep emit targets r = Inr r1"
      "og_loop fuel ovh sep emit targets n r1 = Some (Inr r')"
      using Suc.prems(1) by (auto split: sum.splits)
    have "I r1" using step [OF Suc.prems(2) r1(1)] .
    then show ?thesis using Suc.IH [OF r1(2)] by simp
  qed
qed

lemma og_body_first_unscheduled:
  assumes "\<forall>x \<in> set pre. token x \<in> set (run_scheduled r)"
    and "token t \<notin> set (run_scheduled r)"
    and "sep (coordinate t) (coordinate t) \<le> 10"
    and "exposure_time (magnitude t) = Inr e"
  shows "og_body ovh sep emit (pre @ t # post) r =
           Inr \<lparr>run_scheduled = token t # run_scheduled r, og_idx = Suc (og_idx r),
                total_itime = total_itime r
                   + sum_list (map duration (emit (Suc (og_idx r)) [token t] (e + ovh))),
                persisted = persisted r @ emit (Suc (og_idx r)) [token t] (e + ovh)\<rparr>"
proof -
  let ?s0 = "\<lparr>scheduled = run_scheduled r, og_coord = None, og_itime = 0, components = []\<rparr>"
  have "og_scan ovh sep (pre @ t # post) ?s0 =
           Inr (?s0\<lparr>og_coord := Some (coordinate t),
                   scheduled := token t # scheduled ?s0,
                   og_itime := og_itime ?s0 + (e + ovh),
                   components := components ?s0 @ [token t]\<rparr>)"
    using assms by (intro og_scan_first_unscheduled) simp_all
  then show ?thesis by (simp add: og_body_def Let_def)
qed

text \<open>With distinct tokens the loop takes the targets in list order, one per pass.\<close>

lemma og_loop_in_order:
  assumes "distinct (map token (pre @ post))"
    and "\<forall>c. sep c c \<le> 10"
    and "run_scheduled r = rev (map token pre)"
    and "length post \<le> fuel"
    and "\<forall>t \<in> set post. \<exists>e. exposure_time (magnitude t) = Inr e"
  shows "\<exists>r'. og_loop fuel ovh sep emit (pre @ post) (length (pre @ post)) r = Some (Inr r')
           \<and> og_idx r' = og_idx r + length post
           \<and> run_scheduled r' = rev (map token (pre @ post))
           \<and> persisted r' = persisted r @ concat (map (\<lambda>(i, t).
                 emit i [token t] (projr (exposure_time (magnitude t)) + ovh))
                 (enumerate (Suc (og_idx r)) post))"
  using assms
proof (induction post arbitrary: pre r fuel)
  case Nil
  then have "\<not> length (run_scheduled r) < length (pre @ [])" by simp
  then have "og_loop fuel ovh sep emit (pre @ []) (length (pre @ [])) r = Some (Inr r)"
    by (cases fuel) simp_all
  then show ?case using Nil.prems(3) by simp
next
  case (Cons t post)
  obtain f where f: "fuel = Suc f" "length post \<le> f"
    using Cons.prems(4) by (cases fuel) simp_all
  obtain e where e: "exposure_time (magnitude t) = Inr e" using Cons.prems(5) by auto
  have rest: "\<forall>t \<in> set post. \<exists>e. exposure_time (magnitude t) = Inr e"
    using Cons.prems(5) by simp
  have notin: "token t \<notin> set (run_scheduled r)"
    using Cons.prems(1,3) by auto
  have allin: "\<forall>x \<in> set pre. token x \<in> set (run_scheduled r)"
    using Cons.prems(3) by simp
  have refl: "sep (coordinate t) (coordinate t) \<le> 10" using Cons.prems(2) by blast
  let ?r1 = "\<lparr>run_scheduled = token t # run_scheduled r, og_idx = Suc (og_idx r),
                total_itime = total_itime r
                   + sum_list (map duration (emit (Suc (og_idx r)) [token t] (e + ovh))),
                persisted = persisted r @ emit (Suc (og_idx r)) [token t] (e + ovh)\<rparr>"
  have body: "og_body ovh sep emit (pre @ t # post) r = Inr ?r1"
    using allin notin refl e by (rule og_body_first_unscheduled)
  have lt: "length (run_scheduled r) < length (pre @ t # post)"
    using Cons.prems(3) by simp
  have step: "og_loop fuel ovh sep emit (pre @ t # post) (length (pre @ t # post)) r
        = og_loop f ovh sep emit (pre @ t # post) (length (pre @ t # post)) ?r1"
    using lt body unfolding f(1) by simp
  have d: "distinct (map token ((pre @ [t]) @ post))" using Cons.prems(1) by simp
  have sch: "run_scheduled ?r1 = rev (map token (pre @ [t]))" using Cons.prems(3) by simp
  from Cons.IH [OF d Cons.prems(2) sch f(2) rest]
  obtain r' where r': "og_loop f ovh sep emit ((pre @ [t]) @ post) (length ((pre @ [t]) @ post)) ?r1 = Some (Inr r')"
    "og_idx r' = og_idx ?r1 + length post"
    "run_scheduled r' = rev (map token ((pre @ [t]) @ post))"
    "persisted r' = persisted ?r1 @ concat (map (\<lambda>(i, t).
                 emit i [token t] (projr (exposure_time (magnitude t)) + ovh))
                 (enumerate (Suc (og_idx ?r1)) post))"
    by blast
  have "og_loop fuel ovh sep emit (pre @ t # post) (length (pre @ t # post)) r = Some (Inr r')"
    using step r'(1) by simp
  moreover have "og_idx r' = og_idx r + length (t # post)" using r'(2) by simp
  moreover have "run_scheduled r' = rev (map token (pre @ t # post))" using r'(3) by simp
  moreover have "persisted r' = persisted r @ concat (map (\<lambda>(i, t).
                 emit i [token t] (projr (exposure_time (magnitude t)) + ovh))
                 (enumerate (Suc (og_idx r)) (t # post)))"
    using r'(4) e by simp
  ultimately show ?case by blast
qed

lemma members_cfht_emit:
  "map members (concat (map (\<lambda>(i, t). cfht_emit g q i [token t] (d t)) (enumerate k ts)))
     = concat (map (\<lambda>t. replicate 3 [token t]) ts)"
  by (induction ts arbitrary: k) (simp_all add: cfht_emit_def numeral_3_eq_3 upt_rec)

lemma members_ph2_emit:
  "map members (concat (map (\<lambda>(i, t). ph2_emit u q i [token t] (d t)) (enumerate k ts)))
     = concat (map (\<lambda>t. replicate 3 [token t]) ts)"
  by (induction ts arbitrary: k)
    (simp_all add: ph2_emit_def nrepeats_def numeral_3_eq_3 numeral_2_eq_2 upt_rec)

lemma og_body_progress:
  assumes "\<exists>t \<in> set targets. token t \<notin> set (run_scheduled r)"
    and "\<forall>c. sep c c \<le> 10"
    and "\<forall>t \<in> set targets. \<exists>e. exposure_time (magnitude t) = Inr e"
  shows "\<exists>r'. og_body ovh sep emit targets r = Inr r'
           \<and> length (run_scheduled r') = Suc (length (run_scheduled r))"
proof -
  let ?s0 = "\<lparr>scheduled = run_scheduled r, og_coord = None, og_itime = 0, components = []\<rparr>"
  have "\<exists>s'. og_scan ovh sep targets ?s0 = Inr s' \<and> length (scheduled s') = Suc (length (scheduled ?s0))"
    using assms by (intro og_scan_progress) simp_all
  then show ?thesis by (auto simp: og_body_def Let_def)
qed

lemma og_loop_from_initial:
  assumes "distinct (map token targets)" and "\<forall>c. sep c c \<le> 10"
    and "\<forall>t \<in> set targets. \<exists>e. exposure_time (magnitude t) = Inr e"
  shows "\<exists>r'. og_loop (length targets) ovh sep emit targets (length targets) initial_run = Some (Inr r')
           \<and> og_idx r' = length targets
           \<and> run_scheduled r' = rev (map token targets)
           \<and> persisted r' = concat (map (\<lambda>(i, t).
                 emit i [token t] (projr (exposure_time (magnitude t)) + ovh))
                 (enumerate (Suc 0) targets))"
  using og_loop_in_order [where pre = "[]" and post = targets and r = initial_run
      and fuel = "length targets" and ovh = ovh and emit = emit and sep = sep] assms
  by (simp add: initial_run_def)

text \<open>
  Claim C6 as amended. For every list of \<open>N\<close> targets with pairwise distinct tokens (and a
  separation that puts every coordinate within 10 degrees of itself), both scheduling
  loops end after exactly \<open>N\<close> passes without an exception, provided that the exposure
  time of every target can be selected, as both programs have already done for each target
  they loaded before the loop starts: the group index is \<open>N\<close>,
  every token has been marked scheduled once, and the persisted groups are, in list
  order, three copies of a one-target group per target. Moreover a pass that starts while
  some target is unscheduled schedules exactly one more target.
\<close>

theorem scheduler_terminates_distinct_tokens:
  assumes "distinct (map token targets)" and "\<forall>c. sep c c \<le> 10"
    and "\<forall>t \<in> set targets. \<exists>e. exposure_time (magnitude t) = Inr e"
  shows "(\<exists>r. execute generate_token qrunid sep targets (length targets) = Some (Inr r)
            \<and> og_idx r = length targets
            \<and> run_scheduled r = rev (map token targets)
            \<and> map members (persisted r) = concat (map (\<lambda>t. replicate 3 [token t]) targets))
       \<and> (\<exists>r. ph2_main runid qrunid sep (length targets) targets (length targets) = Some (Inr r)
            \<and> og_idx r = length targets
            \<and> run_scheduled r = rev (map token targets)
            \<and> map members (persisted r) = concat (map (\<lambda>t. replicate 3 [token t]) targets))
       \<and> (\<forall>ovh emit r. (\<exists>t \<in> set targets. token t \<notin> set (run_scheduled r))
            \<longrightarrow> (\<exists>r'. og_body ovh sep emit targets r = Inr r'
                   \<and> length (run_scheduled r') = Suc (length (run_scheduled r))))"
proof (intro conjI allI impI)
  from og_loop_from_initial [where sep = sep and targets = targets and ovh = 0
      and emit = "cfht_emit generate_token qrunid", OF assms]
  obtain r where r: "og_loop (length targets) 0 sep (cfht_emit generate_token qrunid) targets
        (length targets) initial_run = Some (Inr r)"
    "og_idx r = length targets" "run_scheduled r = rev (map token targets)"
    "persisted r = concat (map (\<lambda>(i, t).
                 cfht_emit generate_token qrunid i [token t] (projr (exposure_time (magnitude t)) + 0))
                 (enumerate (Suc 0) targets))"
    by blast
  have "map members (persisted r) = concat (map (\<lambda>t. replicate 3 [token t]) targets)"
    unfolding r(4) by (rule members_cfht_emit)
  then show "\<exists>r. execute generate_token qrunid sep targets (length targets) = Some (Inr r)
            \<and> og_idx r = length targets
            \<and> run_scheduled r = rev (map token targets)
            \<and> map members (persisted r) = concat (map (\<lambda>t. replicate 3 [token t]) targets)"
    using r(1,2,3) by (simp add: execute_def)
  from og_loop_from_initial [where sep = sep and targets = targets and ovh = 40
      and emit = "ph2_emit runid qrunid", OF assms]
  obtain r2 where r2: "og_loop (length targets) 40 sep (ph2_emit runid qrunid) targets
        (length targets) initial_run = Some (Inr r2)"
    "og_idx r2 = length targets" "run_scheduled r2 = rev (map token targets)"
    "persisted r2 = concat (map (\<lambda>(i, t).
                 ph2_emit runid qrunid i [token t] (projr (exposure_time (magnitude t)) + 40))
                 (enumerate (Suc 0) targets))"
    by blast
  have "map members (persisted r2) = concat (map (\<lambda>t. replicate 3 [token t]) targets)"
    unfolding r2(4) by (rule members_ph2_emit)
  then show "\<exists>r. ph2_main runid qrunid sep (length targets) targets (length targets) = Some (Inr r)
            \<and> og_idx r = length targets
            \<and> run_scheduled r = rev (map token targets)
            \<and> map members (persisted r) = concat (map (\<lambda>t. replicate 3 [token t]) targets)"
    using r2(1,2,3) by (simp add: ph2_main_def)
next
  fix ovh emit and r :: run_state
  assume "\<exists>t \<in> set targets. token t \<notin> set (run_scheduled r)"
  then show "\<exists>r'. og_body ovh sep emit targets r = Inr r'
                   \<and> length (run_scheduled r') = Suc (length (run_scheduled r))"
    using assms(2,3) by (rule og_body_progress)
qed

subsection \<open>Concrete runs\<close>

lemma exposure_time_at_245_nf: "exposure_time (49 / 2) = Inr 340"
  using exposure_time_at_245 by simp

lemma str_nat_0: "str_nat 0 = ''0''"
  by (simp add: str_nat_digit digit_char_def)

lemma str_nat_1: "str_nat (Suc 0) = ''1''"
  by (simp add: str_nat_digit digit_char_def)

lemma str_nat_2: "str_nat (Suc (Suc 0)) = ''2''"
  by (simp add: str_nat_digit digit_char_def)

lemma str_nat_3: "str_nat (Suc (Suc (Suc 0))) = ''3''"
  by (simp add: str_nat_digit digit_char_def)

lemmas run_eval = execute_def ph2_main_def initial_run_def og_body_def cfht_emit_def ph2_emit_def
  og_name_def ph2_og_token_def nrepeats_def Let_def numeral_3_eq_3 numeral_2_eq_2 upt_rec
  exposure_time_at_22 exposure_time_at_245_nf exposure_time_at_26

text \<open>
  Claim C1, evaluated on the code. For three targets at right ascensions 10, 12 and 200
  degrees on the equator, with magnitudes 22.0, 24.5 and 26.0, the loop of
  create\_cfht\_observations.py forms three groups of one target each (each persisted three
  times): the two close targets are never in the same group.
\<close>

theorem three_targets_three_groups:
  "execute (\<lambda>n. n) ''18AQ01'' (\<lambda>a b. \<bar>fst a - fst b\<bar>)
     [\<lparr>token = ''T1'', coordinate = (10, 0), magnitude = 22\<rparr>,
      \<lparr>token = ''T2'', coordinate = (12, 0), magnitude = 24.5\<rparr>,
      \<lparr>token = ''T3'', coordinate = (200, 0), magnitude = 26\<rparr>] 3
   = Some (Inr \<lparr>run_scheduled = [''T3'', ''T2'', ''T1''], og_idx = 3, total_itime = 2760,
        persisted =
          [\<lparr>og_token = ''18AQ01-1-0'', members = [''T1''], duration = 80\<rparr>,
           \<lparr>og_token = ''18AQ01-1-1'', members = [''T1''], duration = 80\<rparr>,
           \<lparr>og_token = ''18AQ01-1-2'', members = [''T1''], duration = 80\<rparr>,
           \<lparr>og_token = ''18AQ01-2-0'', members = [''T2''], duration = 340\<rparr>,
           \<lparr>og_token = ''18AQ01-2-1'', members = [''T2''], duration = 340\<rparr>,
           \<lparr>og_token = ''18AQ01-2-2'', members = [''T2''], duration = 340\<rparr>,
           \<lparr>og_token = ''18AQ01-3-0'', members = [''T3''], duration = 500\<rparr>,
           \<lparr>og_token = ''18AQ01-3-1'', members = [''T3''], duration = 500\<rparr>,
           \<lparr>og_token = ''18AQ01-3-2'', members = [''T3''], duration = 500\<rparr>]\<rparr>)"
  by (simp add: run_eval str_nat_0 str_nat_1 str_nat_2 str_nat_3)

text \<open>Once every target's token is in \<^verbatim>\<open>scheduled\<close>, a pass changes nothing but the index.\<close>

lemma og_loop_stuck:
  assumes "\<forall>x \<in> set targets. token x \<in> set (run_scheduled r)"
    and "length (run_scheduled r) < n"
  shows "og_loop fuel ovh sep emit targets n r = None"
  using assms
proof (induction fuel arbitrary: r)
  case 0
  then show ?case by simp
next
  case (Suc fuel)
  let ?s0 = "\<lparr>scheduled = run_scheduled r, og_coord = None, og_itime = 0, components = []\<rparr>"
  have "og_scan ovh sep (targets @ []) ?s0 = og_scan ovh sep [] ?s0"
    using Suc.prems(1) by (intro og_scan_skip_scheduled) simp
  then have scan: "og_scan ovh sep targets ?s0 = Inr ?s0" by simp
  define r1 where "r1 = \<lparr>run_scheduled = run_scheduled r, og_idx = Suc (og_idx r),
        total_itime = total_itime r + sum_list (map duration (emit (Suc (og_idx r)) [] 0)),
        persisted = persisted r @ emit (Suc (og_idx r)) [] 0\<rparr>"
  have body: "og_body ovh sep emit targets r = Inr r1"
    by (simp add: og_body_def scan r1_def Let_def)
  have "og_loop fuel ovh sep emit targets n r1 = None"
    using Suc.prems by (intro Suc.IH) (simp_all add: r1_def)
  then show ?case using Suc.prems(2) body by simp
qed

text \<open>
  Claim C6 fails on the code when two entries of the target list carry the same token
  (in ph2.py: when \<^verbatim>\<open>ob_tokens\<close> holds a token twice): after \<open>N = 2\<close> passes the
  loop is still running, and by \<open>og_loop_stuck\<close> it never ends.
\<close>

theorem duplicate_token_never_finishes:
  "execute (\<lambda>n. n) ''18AQ01'' (\<lambda>a b. \<bar>fst a - fst b\<bar>)
     [\<lparr>token = ''T1'', coordinate = (10, 0), magnitude = 22\<rparr>,
      \<lparr>token = ''T1'', coordinate = (10, 0), magnitude = 22\<rparr>] 2 = None
   \<and> ph2_main ''17BC08'' ''18AQ01'' (\<lambda>a b. \<bar>fst a - fst b\<bar>) 2
     [\<lparr>token = ''OB-18AQ01-T1'', coordinate = (10, 0), magnitude = 22\<rparr>] 2 = None"
  by (simp add: run_eval)

theorem scheduler_terminates_distinct_tokens_witness:
  "distinct (map token [\<lparr>token = ''T1'', coordinate = (10, 0), magnitude = 22\<rparr>,
                       \<lparr>token = ''T2'', coordinate = (12, 0), magnitude = 24.5\<rparr>])
   \<and> (\<forall>c :: coord. \<bar>fst c - fst c\<bar> \<le> 10)
   \<and> exposure_time 22 = Inr 80 \<and> exposure_time 24.5 = Inr 340
   \<and> (\<exists>r. execute (\<lambda>n. n) ''18AQ01'' (\<lambda>a b. \<bar>fst a - fst b\<bar>)
           [\<lparr>token = ''T1'', coordinate = (10, 0), magnitude = 22\<rparr>,
            \<lparr>token = ''T2'', coordinate = (12, 0), magnitude = 24.5\<rparr>] 2 = Some (Inr r)
         \<and> og_idx r = 2 \<and> run_scheduled r = [''T2'', ''T1'']
         \<and> map members (persisted r)
             = [[''T1''], [''T1''], [''T1''], [''T2''], [''T2''], [''T2'']])
   \<and> (\<exists>r. ph2_main ''17BC08'' ''18AQ01'' (\<lambda>a b. \<bar>fst a - fst b\<bar>) 2
           [\<lparr>token = ''T1'', coordinate = (10, 0), magnitude = 22\<rparr>,
            \<lparr>token = ''T2'', coordinate = (12, 0), magnitude = 24.5\<rparr>] 2 = Some (Inr r)
         \<and> og_idx r = 2 \<and> run_scheduled r = [''T2'', ''T1'']
         \<and> map members (persisted r)
             = [[''T1''], [''T1''], [''T1''], [''T2''], [''T2''], [''T2'']])"
proof -
  let ?ts = "[\<lparr>token = ''T1'', coordinate = (10, 0), magnitude = 22\<rparr>,
              \<lparr>token = ''T2'', coordinate = (12, 0), magnitude = 24.5\<rparr>]"
  have d: "distinct (map token ?ts)" by simp
  have s: "\<forall>c :: coord. (\<lambda>a b. \<bar>fst a - fst b\<bar>) c c \<le> 10" by simp
  have e: "\<forall>t \<in> set ?ts. \<exists>e. exposure_time (magnitude t) = Inr e"
    by (simp add: exposure_time_at_22 exposure_time_at_245_nf)
  note t = scheduler_terminates_distinct_tokens [where targets = ?ts
        and sep = "\<lambda>a b. \<bar>fst a - fst b\<bar>" and generate_token = "\<lambda>n. n"
        and qrunid = "''18AQ01''" and runid = "''17BC08''", OF d s e]
  have l: "length ?ts = 2" by simp
  have m: "concat (map (\<lambda>t. replicate 3 [token t]) ?ts)
             = [[''T1''], [''T1''], [''T1''], [''T2''], [''T2''], [''T2'']]"
    by (simp add: numeral_3_eq_3)
  have r: "rev (map token ?ts) = [''T2'', ''T1'']" by simp
  from t have "\<exists>r. execute (\<lambda>n. n) ''18AQ01'' (\<lambda>a b. \<bar>fst a - fst b\<bar>) ?ts (length ?ts) = Some (Inr r)
         \<and> og_idx r = length ?ts \<and> run_scheduled r = rev (map token ?ts)
         \<and> map members (persisted r) = concat (map (\<lambda>t. replicate 3 [token t]) ?ts)"
    by (rule conjunct1)
  then have a: "\<exists>r. execute (\<lambda>n. n) ''18AQ01'' (\<lambda>a b. \<bar>fst a - fst b\<bar>) ?ts 2 = Some (Inr r)
         \<and> og_idx r = 2 \<and> run_scheduled r = [''T2'', ''T1'']
         \<and> map members (persisted r)
             = [[''T1''], [''T1''], [''T1''], [''T2''], [''T2''], [''T2'']]"
    unfolding l m r .
  from t have "\<exists>r. ph2_main ''17BC08'' ''18AQ01'' (\<lambda>a b. \<bar>fst a - fst b\<bar>) (length ?ts) ?ts (length ?ts) = Some (Inr r)
         \<and> og_idx r = length ?ts \<and> run_scheduled r = rev (map token ?ts)
         \<and> map members (persisted r) = concat (map (\<lambda>t. replicate 3 [token t]) ?ts)"
    by (rule conjunct2 [THEN conjunct1])
  then have b: "\<exists>r. ph2_main ''17BC08'' ''18AQ01'' (\<lambda>a b. \<bar>fst a - fst b\<bar>) 2 ?ts 2 = Some (Inr r)
         \<and> og_idx r = 2 \<and> run_scheduled r = [''T2'', ''T1'']
         \<and> map members (persisted r)
             = [[''T1''], [''T1''], [''T1''], [''T2''], [''T2''], [''T2'']]"
    unfolding l m r .
  show ?thesis using d s a b exposure_time_at_22 exposure_time_at_245
    by (intro conjI) simp_all
qed

subsection \<open>Groups and their copies\<close>

lemma emit_copies_cfht:
  "g \<in> set (cfht_emit gen q idx obs itime) \<Longrightarrow> members g = obs \<and> duration g = itime"
  by (auto simp: cfht_emit_def)

lemma emit_copies_ph2:
  "g \<in> set (ph2_emit u q idx obs itime) \<Longrightarrow> members g = obs \<and> duration g = itime"
  by (auto simp: ph2_emit_def)

text \<open>Every persisted group is the group that some pass formed.\<close>

lemma og_loop_groups_from_scans:
  assumes "og_loop fuel ovh sep emit targets n initial_run = Some (Inr r)"
    and "g \<in> set (persisted r)"
    and emit: "\<And>g idx obs itime. g \<in> set (emit idx obs itime) \<Longrightarrow> members g = obs \<and> duration g = itime"
  shows "\<exists>sch s. og_scan ovh sep targets
                 \<lparr>scheduled = sch, og_coord = None, og_itime = 0, components = []\<rparr> = Inr s
               \<and> members g = components s \<and> duration g = og_itime s"
proof -
  let ?I = "\<lambda>r. \<forall>g \<in> set (persisted r). \<exists>sch s. og_scan ovh sep targets
                 \<lparr>scheduled = sch, og_coord = None, og_itime = 0, components = []\<rparr> = Inr s
               \<and> members g = components s \<and> duration g = og_itime s"
  have "?I r"
  proof (rule og_loop_invariant [where I = ?I, OF assms(1)])
    show "?I initial_run" by (simp add: initial_run_def)
  next
    fix r1 r2
    assume I: "?I r1" and body: "og_body ovh sep emit targets r1 = Inr r2"
    from og_body_Inr [OF body] obtain s where s:
      "og_scan ovh sep targets
         \<lparr>scheduled = run_scheduled r1, og_coord = None, og_itime = 0, components = []\<rparr> = Inr s"
      "persisted r2 = persisted r1 @ emit (Suc (og_idx r1)) (components s) (og_itime s)"
      by auto
    show "?I r2"
    proof
      fix g assume "g \<in> set (persisted r2)"
      then consider "g \<in> set (persisted r1)"
        | "g \<in> set (emit (Suc (og_idx r1)) (components s) (og_itime s))"
        using s(2) by auto
      then show "\<exists>sch s. og_scan ovh sep targets
                 \<lparr>scheduled = sch, og_coord = None, og_itime = 0, components = []\<rparr> = Inr s
               \<and> members g = components s \<and> duration g = og_itime s"
      proof cases
        case 1
        then show ?thesis using I by blast
      next
        case 2
        then have "members g = components s \<and> duration g = og_itime s" by (rule emit)
        then show ?thesis using s(1) by blast
      qed
    qed
  qed
  then show ?thesis using assms(2) by blast
qed

lemma og_scan_fresh_budget:
  assumes "og_scan ovh sep targets
             \<lparr>scheduled = sch, og_coord = None, og_itime = 0, components = []\<rparr> = Inr s"
    and "0 \<le> ovh" "ovh \<le> 2500"
  shows "0 \<le> og_itime s \<and> og_itime s \<le> 3000 \<and> length (components s) \<le> 1"
proof -
  from og_scan_fresh [OF assms(1)]
  show ?thesis
  proof
    assume "components s = [] \<and> og_itime s = 0 \<and> scheduled s = sch"
    then show ?thesis by simp
  next
    assume "\<exists>pre a post t e. targets = pre @ a # post
             \<and> (\<forall>x \<in> set pre. token x \<in> set sch) \<and> token a \<notin> set sch
             \<and> og_coord s = Some (coordinate a)
             \<and> t \<in> set targets \<and> token t \<notin> set sch \<and> components s = [token t]
             \<and> scheduled s = token t # sch
             \<and> sep (coordinate t) (coordinate a) \<le> 10
             \<and> exposure_time (magnitude t) = Inr e \<and> og_itime s = e + ovh"
    then obtain t :: target and e where te: "components s = [token t]"
      "exposure_time (magnitude t) = Inr e" "og_itime s = e + ovh" by blast
    have "80 \<le> e \<and> e \<le> 500" using exposure_time_range [OF te(2)] .
    then show ?thesis using te assms(2,3) by simp
  qed
qed

text \<open>
  Claim C7. A pass that starts with the variables as the loop resets them forms a group
  whose duration is at most 3000 seconds and whose every member passed the separation test
  against the group's anchor, the first target not yet scheduled: its separation from the
  anchor is at most 10 degrees. Every group that either scheduling loop persists is the
  group of such a pass, so its duration is at most 3000 seconds.
\<close>

theorem group_within_radius_and_budget:
  "(og_scan ovh sep targets
       \<lparr>scheduled = sch, og_coord = None, og_itime = 0, components = []\<rparr> = Inr s
      \<and> (ovh = 0 \<or> ovh = 40)
     \<longrightarrow> real_of_int (og_itime s) \<le> 3000
        \<and> (\<forall>tok \<in> set (components s). \<exists>pre a post t.
              targets = pre @ a # post
              \<and> (\<forall>x \<in> set pre. token x \<in> set sch) \<and> token a \<notin> set sch
              \<and> og_coord s = Some (coordinate a)
              \<and> t \<in> set targets \<and> token t = tok
              \<and> sep (coordinate t) (coordinate a) \<le> 10))
   \<and> (execute generate_token qrunid sep targets fuel = Some (Inr r) \<and> g \<in> set (persisted r)
     \<longrightarrow> real_of_int (duration g) \<le> 3000
        \<and> (\<exists>sch s. og_scan 0 sep targets
                \<lparr>scheduled = sch, og_coord = None, og_itime = 0, components = []\<rparr> = Inr s
              \<and> members g = components s \<and> duration g = og_itime s))
   \<and> (ph2_main runid qrunid sep n_ob_tokens targets fuel = Some (Inr r) \<and> g \<in> set (persisted r)
     \<longrightarrow> real_of_int (duration g) \<le> 3000
        \<and> (\<exists>sch s. og_scan 40 sep targets
                \<lparr>scheduled = sch, og_coord = None, og_itime = 0, components = []\<rparr> = Inr s
              \<and> members g = components s \<and> duration g = og_itime s))"
proof (intro conjI impI)
  assume a: "og_scan ovh sep targets
       \<lparr>scheduled = sch, og_coord = None, og_itime = 0, components = []\<rparr> = Inr s
      \<and> (ovh = 0 \<or> ovh = 40)"
  then have run: "og_scan ovh sep targets
       \<lparr>scheduled = sch, og_coord = None, og_itime = 0, components = []\<rparr> = Inr s"
    and ovh: "0 \<le> ovh" "ovh \<le> 2500" by auto
  show "real_of_int (og_itime s) \<le> 3000"
    using og_scan_fresh_budget [OF run ovh] by simp
  show "\<forall>tok \<in> set (components s). \<exists>pre a post t.
              targets = pre @ a # post
              \<and> (\<forall>x \<in> set pre. token x \<in> set sch) \<and> token a \<notin> set sch
              \<and> og_coord s = Some (coordinate a)
              \<and> t \<in> set targets \<and> token t = tok
              \<and> sep (coordinate t) (coordinate a) \<le> 10"
    using og_scan_fresh [OF run] by fastforce
next
  assume a: "execute generate_token qrunid sep targets fuel = Some (Inr r) \<and> g \<in> set (persisted r)"
  then have "\<exists>sch s. og_scan 0 sep targets
                \<lparr>scheduled = sch, og_coord = None, og_itime = 0, components = []\<rparr> = Inr s
              \<and> members g = components s \<and> duration g = og_itime s"
    unfolding execute_def
    by (intro og_loop_groups_from_scans [where emit = "cfht_emit generate_token qrunid"]
        emit_copies_cfht) auto
  then show "\<exists>sch s. og_scan 0 sep targets
                \<lparr>scheduled = sch, og_coord = None, og_itime = 0, components = []\<rparr> = Inr s
              \<and> members g = components s \<and> duration g = og_itime s" .
  then show "real_of_int (duration g) \<le> 3000"
    using og_scan_fresh_budget [where ovh = 0] by fastforce
next
  assume a: "ph2_main runid qrunid sep n_ob_tokens targets fuel = Some (Inr r) \<and> g \<in> set (persisted r)"
  then have "\<exists>sch s. og_scan 40 sep targets
                \<lparr>scheduled = sch, og_coord = None, og_itime = 0, components = []\<rparr> = Inr s
              \<and> members g = components s \<and> duration g = og_itime s"
    unfolding ph2_main_def
    by (intro og_loop_groups_from_scans [where emit = "ph2_emit runid qrunid"]
        emit_copies_ph2) auto
  then show "\<exists>sch s. og_scan 40 sep targets
                \<lparr>scheduled = sch, og_coord = None, og_itime = 0, components = []\<rparr> = Inr s
              \<and> members g = components s \<and> duration g = og_itime s" .
  then show "real_of_int (duration g) \<le> 3000"
    using og_scan_fresh_budget [where ovh = 40] by fastforce
qed

theorem group_within_radius_and_budget_witness:
  "og_scan 0 (\<lambda>a b. \<bar>fst a - fst b\<bar>)
      [\<lparr>token = ''T1'', coordinate = (10, 0), magnitude = 22\<rparr>,
       \<lparr>token = ''T2'', coordinate = (12, 0), magnitude = 24.5\<rparr>]
      \<lparr>scheduled = [], og_coord = None, og_itime = 0, components = []\<rparr>
     = Inr \<lparr>scheduled = [''T1''], og_coord = Some (10, 0), og_itime = 80, components = [''T1'']\<rparr>
   \<and> execute (\<lambda>n. n) ''18AQ01'' (\<lambda>a b. \<bar>fst a - fst b\<bar>)
        [\<lparr>token = ''T1'', coordinate = (10, 0), magnitude = 22\<rparr>] 1
     = Some (Inr \<lparr>run_scheduled = [''T1''], og_idx = 1, total_itime = 240,
          persisted =
            [\<lparr>og_token = ''18AQ01-1-0'', members = [''T1''], duration = 80\<rparr>,
             \<lparr>og_token = ''18AQ01-1-1'', members = [''T1''], duration = 80\<rparr>,
             \<lparr>og_token = ''18AQ01-1-2'', members = [''T1''], duration = 80\<rparr>]\<rparr>)
   \<and> ph2_main ''17BC08'' ''18AQ01'' (\<lambda>a b. \<bar>fst a - fst b\<bar>) 1
        [\<lparr>token = ''T1'', coordinate = (10, 0), magnitude = 22\<rparr>] 1
     = Some (Inr \<lparr>run_scheduled = [''T1''], og_idx = 1, total_itime = 360,
          persisted =
            [\<lparr>og_token = ''OG_17BC08_18AQ01_1_0'', members = [''T1''], duration = 120\<rparr>,
             \<lparr>og_token = ''OG_17BC08_18AQ01_1_1'', members = [''T1''], duration = 120\<rparr>,
             \<lparr>og_token = ''OG_17BC08_18AQ01_1_2'', members = [''T1''], duration = 120\<rparr>]\<rparr>)
   \<and> real_of_int (80 :: int) \<le> 3000 \<and> real_of_int (120 :: int) \<le> 3000"
proof -
  let ?sep = "\<lambda>(a :: coord) (b :: coord). \<bar>fst a - fst b\<bar>"
  let ?t1 = "\<lparr>token = ''T1'', coordinate = (10, 0), magnitude = 22\<rparr>"
  let ?t2 = "\<lparr>token = ''T2'', coordinate = (12, 0), magnitude = 24.5\<rparr>"
  let ?s = "\<lparr>scheduled = [''T1''], og_coord = Some (10, 0), og_itime = 80, components = [''T1'']\<rparr>"
  let ?g1 = "\<lparr>og_token = ''18AQ01-1-0'', members = [''T1''], duration = 80\<rparr>"
  let ?g2 = "\<lparr>og_token = ''OG_17BC08_18AQ01_1_0'', members = [''T1''], duration = 120\<rparr>"
  let ?r1 = "\<lparr>run_scheduled = [''T1''], og_idx = 1, total_itime = 240,
          persisted =
            [?g1,
             \<lparr>og_token = ''18AQ01-1-1'', members = [''T1''], duration = 80\<rparr>,
             \<lparr>og_token = ''18AQ01-1-2'', members = [''T1''], duration = 80\<rparr>]\<rparr>"
  let ?r2 = "\<lparr>run_scheduled = [''T1''], og_idx = 1, total_itime = 360,
          persisted =
            [?g2,
             \<lparr>og_token = ''OG_17BC08_18AQ01_1_1'', members = [''T1''], duration = 120\<rparr>,
             \<lparr>og_token = ''OG_17BC08_18AQ01_1_2'', members = [''T1''], duration = 120\<rparr>]\<rparr>"
  have a: "og_scan 0 ?sep [?t1, ?t2]
      \<lparr>scheduled = [], og_coord = None, og_itime = 0, components = []\<rparr> = Inr ?s"
    by (simp add: run_eval)
  have b: "execute (\<lambda>n. n) ''18AQ01'' ?sep [?t1] 1 = Some (Inr ?r1)"
    by (simp add: run_eval str_nat_0 str_nat_1 str_nat_2)
  have c: "ph2_main ''17BC08'' ''18AQ01'' ?sep 1 [?t1] 1 = Some (Inr ?r2)"
    by (simp add: run_eval str_nat_0 str_nat_1 str_nat_2)
  have g1: "?g1 \<in> set (persisted ?r1)" by simp
  have g2: "?g2 \<in> set (persisted ?r2)" by simp
  note t1 = group_within_radius_and_budget [where ovh = 0 and sep = ?sep and targets = "[?t1, ?t2]"
      and sch = "[]" and s = ?s]
  note t2 = group_within_radius_and_budget [where sep = ?sep and targets = "[?t1]"
      and generate_token = "\<lambda>n. n" and qrunid = "''18AQ01''" and fuel = 1 and r = ?r1 and g = ?g1]
  note t3 = group_within_radius_and_budget [where sep = ?sep and targets = "[?t1]"
      and runid = "''17BC08''" and qrunid = "''18AQ01''" and n_ob_tokens = 1 and fuel = 1
      and r = ?r2 and g = ?g2]
  have "real_of_int (og_itime ?s) \<le> 3000" using t1 a by blast
  moreover have "real_of_int (duration ?g1) \<le> 3000" using t2 b g1 by blast
  moreover have "real_of_int (duration ?g2) \<le> 3000" using t3 c g2 by blast
  ultimately show ?thesis using a b c by simp
qed

lemma ph2_emit_range:
  "ph2_emit u q idx obs itime =
     map (\<lambda>repeat. \<lparr>og_token = ph2_og_token u q idx repeat, members = obs, duration = itime\<rparr>)
       [0..<nrepeats + 1]"
  by (simp add: ph2_emit_def nrepeats_def numeral_2_eq_2 upt_rec)

lemma cfht_emit_range:
  "cfht_emit g q idx obs itime =
     map (\<lambda>repeat. \<lparr>og_token = g (og_name q idx repeat), members = obs, duration = itime\<rparr>)
       [0..<nrepeats + 1]"
  by (simp add: cfht_emit_def nrepeats_def)

lemma og_loop_og_passes:
  "og_loop fuel ovh sep emit targets n r = Some res \<Longrightarrow> og_passes fuel ovh sep emit targets n r = res"
  by (induction fuel arbitrary: r) (auto split: if_splits sum.splits)

lemma og_passes_invariant:
  assumes "og_passes k ovh sep emit targets n r = Inr r'"
    and "I r"
    and step: "\<And>r1 r2. I r1 \<Longrightarrow> og_body ovh sep emit targets r1 = Inr r2 \<Longrightarrow> I r2"
  shows "I r'"
  using assms(1,2)
proof (induction k arbitrary: r)
  case 0
  then show ?case by simp
next
  case (Suc k)
  show ?case
  proof (cases "length (run_scheduled r) < n")
    case False
    then show ?thesis using Suc.prems by simp
  next
    case True
    then obtain r1 where r1: "og_body ovh sep emit targets r = Inr r1"
      "og_passes k ovh sep emit targets n r1 = Inr r'"
      using Suc.prems(1) by (auto split: sum.splits)
    have "I r1" using step [OF Suc.prems(2) r1(1)] .
    then show ?thesis using Suc.IH [OF r1(2)] by simp
  qed
qed

lemma og_scan_fresh_scheduled:
  assumes "og_scan ovh sep targets
             \<lparr>scheduled = sch, og_coord = None, og_itime = 0, components = []\<rparr> = Inr s"
  shows "scheduled s = rev (components s) @ sch"
  using og_scan_fresh [OF assms] by auto

text \<open>
  After any number of passes the persisted list is, group index by group index, the copies
  of the groups that the passes formed, and these groups hold exactly the tokens marked
  scheduled, in the order in which they were marked.
\<close>

lemma og_passes_persisted_by_index:
  assumes "og_passes k ovh sep emit targets n initial_run = Inr r"
  shows "\<exists>gs. length gs = og_idx r \<and> concat (map fst gs) = rev (run_scheduled r)
           \<and> persisted r = concat (map (\<lambda>(i, obs, itime). emit i obs itime) (enumerate (Suc 0) gs))"
proof -
  let ?I = "\<lambda>r. \<exists>gs. length gs = og_idx r \<and> concat (map fst gs) = rev (run_scheduled r)
           \<and> persisted r = concat (map (\<lambda>(i, obs, itime). emit i obs itime) (enumerate (Suc 0) gs))"
  show "?I r"
  proof (rule og_passes_invariant [where I = ?I, OF assms])
    show "?I initial_run" by (simp add: initial_run_def)
  next
    fix r1 r2
    assume I: "?I r1" and body: "og_body ovh sep emit targets r1 = Inr r2"
    from I obtain gs where gs: "length gs = og_idx r1"
      "concat (map fst gs) = rev (run_scheduled r1)"
      "persisted r1 = concat (map (\<lambda>(i, obs, itime). emit i obs itime) (enumerate (Suc 0) gs))"
      by blast
    from og_body_Inr [OF body] obtain s :: og_state where s:
      "og_scan ovh sep targets
         \<lparr>scheduled = run_scheduled r1, og_coord = None, og_itime = 0, components = []\<rparr> = Inr s"
      "run_scheduled r2 = scheduled s"
      "og_idx r2 = Suc (og_idx r1)"
      "persisted r2 = persisted r1 @ emit (Suc (og_idx r1)) (components s) (og_itime s)"
      by auto
    let ?gs = "gs @ [(components s, og_itime s)]"
    have "length ?gs = og_idx r2" using gs(1) s(3) by simp
    moreover have "concat (map fst ?gs) = rev (run_scheduled r2)"
      using gs(2) s(2) og_scan_fresh_scheduled [OF s(1)] by simp
    moreover have "persisted r2 =
        concat (map (\<lambda>(i, obs, itime). emit i obs itime) (enumerate (Suc 0) ?gs))"
      using gs(1,3) s(4) by (simp add: enumerate_append_eq)
    ultimately show "?I r2" by blast
  qed
qed

lemma tokens_by_index:
  "map og_token (concat (map (\<lambda>(i, obs, itime).
        map (\<lambda>repeat. \<lparr>og_token = tok i repeat, members = obs, duration = itime\<rparr>) ks)
        (enumerate k gs)))
   = concat (map (\<lambda>i. map (tok i) ks) [k..<k + length gs])"
proof (induction gs arbitrary: k)
  case Nil
  show ?case by simp
next
  case (Cons g gs)
  have "k < k + length (g # gs)" by simp
  from upt_conv_Cons [OF this]
  have "[k..<k + length (g # gs)] = k # [Suc k..<Suc k + length gs]"
    by simp
  then show ?case using Cons.IH [of "Suc k"] by (simp add: case_prod_beta comp_def)
qed

lemma length_by_index:
  "length (concat (map (\<lambda>(i, obs, itime).
        map (\<lambda>repeat. \<lparr>og_token = tok i repeat, members = obs, duration = itime\<rparr>) ks)
        (enumerate k gs)))
   = length ks * length gs"
  by (induction gs arbitrary: k) (simp_all add: case_prod_beta)

lemma distinct_grid:
  assumes "distinct is" "distinct ks"
    and inj: "\<And>i k i' k'. F i k = F i' k' \<Longrightarrow> i = i' \<and> k = k'"
  shows "distinct (concat (map (\<lambda>i. map (F i) ks) is))"
proof -
  have "concat (map (\<lambda>i. map (F i) ks) is) = map (\<lambda>(i, k). F i k) (List.product is ks)"
    by (simp add: product_concat_map map_concat comp_def)
  moreover have "distinct (List.product is ks)" using assms(1,2) by (rule distinct_product)
  moreover have "inj_on (\<lambda>(i, k). F i k) (set (List.product is ks))"
    by (rule inj_onI) (auto dest: inj)
  ultimately show ?thesis by (simp add: distinct_map)
qed

lemma og_passes_cfht:
  assumes "og_passes k 0 sep (cfht_emit g q) targets n initial_run = Inr r"
  shows "(\<exists>gs. length gs = og_idx r \<and> concat (map fst gs) = rev (run_scheduled r)
            \<and> persisted r = concat (map (\<lambda>(i, obs, itime).
                  map (\<lambda>repeat. \<lparr>og_token = g (og_name q i repeat),
                                   members = obs, duration = itime\<rparr>) [0..<nrepeats + 1])
                  (enumerate 1 gs)))
        \<and> length (persisted r) = (nrepeats + 1) * og_idx r
        \<and> distinct (concat (map (\<lambda>i. map (og_name q i) [0..<nrepeats + 1]) [1..<1 + og_idx r]))
        \<and> (inj g \<longrightarrow> distinct (map og_token (persisted r)))"
proof (intro conjI impI)
  from og_passes_persisted_by_index [OF assms]
  obtain gs where gs: "length gs = og_idx r" "concat (map fst gs) = rev (run_scheduled r)"
    "persisted r = concat (map (\<lambda>(i, obs, itime).
                  map (\<lambda>repeat. \<lparr>og_token = g (og_name q i repeat),
                                   members = obs, duration = itime\<rparr>) [0..<nrepeats + 1])
                  (enumerate 1 gs))"
    unfolding cfht_emit_range by auto
  show "\<exists>gs. length gs = og_idx r \<and> concat (map fst gs) = rev (run_scheduled r)
            \<and> persisted r = concat (map (\<lambda>(i, obs, itime).
                  map (\<lambda>repeat. \<lparr>og_token = g (og_name q i repeat),
                                   members = obs, duration = itime\<rparr>) [0..<nrepeats + 1])
                  (enumerate 1 gs))"
    using gs by blast
  show "length (persisted r) = (nrepeats + 1) * og_idx r"
    unfolding gs(3) length_by_index using gs(1) by simp
  show "distinct (concat (map (\<lambda>i. map (og_name q i) [0..<nrepeats + 1]) [1..<1 + og_idx r]))"
    by (rule distinct_grid) (simp_all add: og_name_inj)
  assume "inj g"
  then have "\<And>i k i' k'. g (og_name q i k) = g (og_name q i' k') \<Longrightarrow> i = i' \<and> k = k'"
    using og_name_inj by (auto dest: injD)
  then have "distinct (concat (map (\<lambda>i. map (\<lambda>k. g (og_name q i k)) [0..<nrepeats + 1])
      [1..<1 + length gs]))"
    by (intro distinct_grid) simp_all
  then show "distinct (map og_token (persisted r))"
    unfolding gs(3) tokens_by_index .
qed

lemma og_passes_ph2:
  assumes "og_passes k 40 sep (ph2_emit u q) targets n initial_run = Inr r"
  shows "(\<exists>gs. length gs = og_idx r \<and> concat (map fst gs) = rev (run_scheduled r)
            \<and> persisted r = concat (map (\<lambda>(i, obs, itime).
                  map (\<lambda>repeat. \<lparr>og_token = ph2_og_token u q i repeat,
                                   members = obs, duration = itime\<rparr>) [0..<nrepeats + 1])
                  (enumerate 1 gs)))
        \<and> length (persisted r) = (nrepeats + 1) * og_idx r
        \<and> distinct (map og_token (persisted r))"
proof (intro conjI)
  from og_passes_persisted_by_index [OF assms]
  obtain gs where gs: "length gs = og_idx r" "concat (map fst gs) = rev (run_scheduled r)"
    "persisted r = concat (map (\<lambda>(i, obs, itime).
                  map (\<lambda>repeat. \<lparr>og_token = ph2_og_token u q i repeat,
                                   members = obs, duration = itime\<rparr>) [0..<nrepeats + 1])
                  (enumerate 1 gs))"
    unfolding ph2_emit_range by auto
  show "\<exists>gs. length gs = og_idx r \<and> concat (map fst gs) = rev (run_scheduled r)
            \<and> persisted r = concat (map (\<lambda>(i, obs, itime).
                  map (\<lambda>repeat. \<lparr>og_token = ph2_og_token u q i repeat,
                                   members = obs, duration = itime\<rparr>) [0..<nrepeats + 1])
                  (enumerate 1 gs))"
    using gs by blast
  show "length (persisted r) = (nrepeats + 1) * og_idx r"
    unfolding gs(3) length_by_index using gs(1) by simp
  have "distinct (concat (map (\<lambda>i. map (ph2_og_token u q i) [0..<nrepeats + 1])
      [1..<1 + length gs]))"
    by (rule distinct_grid) (simp_all add: ph2_og_token_inj)
  then show "distinct (map og_token (persisted r))"
    unfolding gs(3) tokens_by_index .
qed

text \<open>
  Claim C8. Every pass of either loop that closes a group raises the group index by one
  and appends to the persisted list exactly \<open>nrepeats + 1 = 3\<close> copies of the group it
  formed (the group and two more), with the same members and duration, each copy adding
  the group's duration to the running total; the copy
  \<open>repeat\<close> of group \<open>i\<close> has the token built from the run identifiers, \<open>i\<close> and
  \<open>repeat\<close>. Hence after any number of passes, whether or not the loop ever ends, the
  persisted list is made of three copies for each group index from 1 to the current one,
  the groups hold exactly the tokens marked scheduled so far, the names built by
  create\_cfht\_observations.py are pairwise distinct (and so are its tokens when the
  repository's token generator is injective), and the tokens of ph2.py are pairwise
  distinct. A run that ends is such a sequence of passes.
\<close>

theorem persisted_copies_distinct_tokens:
  "(og_body 0 sep (cfht_emit generate_token qrunid) targets rs = Inr rs'
     \<longrightarrow> (\<exists>s. og_scan 0 sep targets
                 \<lparr>scheduled = run_scheduled rs, og_coord = None, og_itime = 0, components = []\<rparr>
               = Inr s
            \<and> run_scheduled rs' = scheduled s \<and> og_idx rs' = og_idx rs + 1
            \<and> total_itime rs' = total_itime rs + (int nrepeats + 1) * og_itime s
            \<and> persisted rs' = persisted rs
                 @ map (\<lambda>repeat. \<lparr>og_token = generate_token (og_name qrunid (og_idx rs + 1) repeat),
                                    members = components s, duration = og_itime s\<rparr>)
                     [0..<nrepeats + 1]))
   \<and> (og_body 40 sep (ph2_emit runid qrunid) targets rs = Inr rs'
     \<longrightarrow> (\<exists>s. og_scan 40 sep targets
                 \<lparr>scheduled = run_scheduled rs, og_coord = None, og_itime = 0, components = []\<rparr>
               = Inr s
            \<and> run_scheduled rs' = scheduled s \<and> og_idx rs' = og_idx rs + 1
            \<and> total_itime rs' = total_itime rs + (int nrepeats + 1) * og_itime s
            \<and> persisted rs' = persisted rs
                 @ map (\<lambda>repeat. \<lparr>og_token = ph2_og_token runid qrunid (og_idx rs + 1) repeat,
                                    members = components s, duration = og_itime s\<rparr>)
                     [0..<nrepeats + 1]))
   \<and> (og_passes k 0 sep (cfht_emit generate_token qrunid) targets (length targets) initial_run
         = Inr r
     \<longrightarrow> (\<exists>gs. length gs = og_idx r \<and> concat (map fst gs) = rev (run_scheduled r)
            \<and> persisted r = concat (map (\<lambda>(i, obs, itime).
                  map (\<lambda>repeat. \<lparr>og_token = generate_token (og_name qrunid i repeat),
                                   members = obs, duration = itime\<rparr>) [0..<nrepeats + 1])
                  (enumerate 1 gs)))
        \<and> length (persisted r) = (nrepeats + 1) * og_idx r
        \<and> distinct (concat (map (\<lambda>i. map (og_name qrunid i) [0..<nrepeats + 1])
              [1..<1 + og_idx r]))
        \<and> (inj generate_token \<longrightarrow> distinct (map og_token (persisted r))))
   \<and> (og_passes k 40 sep (ph2_emit runid qrunid) targets n_ob_tokens initial_run = Inr r
     \<longrightarrow> (\<exists>gs. length gs = og_idx r \<and> concat (map fst gs) = rev (run_scheduled r)
            \<and> persisted r = concat (map (\<lambda>(i, obs, itime).
                  map (\<lambda>repeat. \<lparr>og_token = ph2_og_token runid qrunid i repeat,
                                   members = obs, duration = itime\<rparr>) [0..<nrepeats + 1])
                  (enumerate 1 gs)))
        \<and> length (persisted r) = (nrepeats + 1) * og_idx r
        \<and> distinct (map og_token (persisted r)))
   \<and> (execute generate_token qrunid sep targets fuel = Some (Inr r)
     \<longrightarrow> og_passes fuel 0 sep (cfht_emit generate_token qrunid) targets (length targets)
           initial_run = Inr r)
   \<and> (ph2_main runid qrunid sep n_ob_tokens targets fuel = Some (Inr r)
     \<longrightarrow> og_passes fuel 40 sep (ph2_emit runid qrunid) targets n_ob_tokens initial_run = Inr r)"
proof (intro conjI)
  show "og_body 0 sep (cfht_emit generate_token qrunid) targets rs = Inr rs'
     \<longrightarrow> (\<exists>s. og_scan 0 sep targets
                 \<lparr>scheduled = run_scheduled rs, og_coord = None, og_itime = 0, components = []\<rparr>
               = Inr s
            \<and> run_scheduled rs' = scheduled s \<and> og_idx rs' = og_idx rs + 1
            \<and> total_itime rs' = total_itime rs + (int nrepeats + 1) * og_itime s
            \<and> persisted rs' = persisted rs
                 @ map (\<lambda>repeat. \<lparr>og_token = generate_token (og_name qrunid (og_idx rs + 1) repeat),
                                    members = components s, duration = og_itime s\<rparr>)
                     [0..<nrepeats + 1])"
    using og_body_Inr [of 0 sep "cfht_emit generate_token qrunid" targets rs rs']
    unfolding cfht_emit_range by (auto simp: sum_list_triv comp_def algebra_simps)
  show "og_body 40 sep (ph2_emit runid qrunid) targets rs = Inr rs'
     \<longrightarrow> (\<exists>s. og_scan 40 sep targets
                 \<lparr>scheduled = run_scheduled rs, og_coord = None, og_itime = 0, components = []\<rparr>
               = Inr s
            \<and> run_scheduled rs' = scheduled s \<and> og_idx rs' = og_idx rs + 1
            \<and> total_itime rs' = total_itime rs + (int nrepeats + 1) * og_itime s
            \<and> persisted rs' = persisted rs
                 @ map (\<lambda>repeat. \<lparr>og_token = ph2_og_token runid qrunid (og_idx rs + 1) repeat,
                                    members = components s, duration = og_itime s\<rparr>)
                     [0..<nrepeats + 1])"
    using og_body_Inr [of 40 sep "ph2_emit runid qrunid" targets rs rs']
    unfolding ph2_emit_range by (auto simp: sum_list_triv comp_def algebra_simps)
  show "og_passes k 0 sep (cfht_emit generate_token qrunid) targets (length targets) initial_run
         = Inr r
     \<longrightarrow> (\<exists>gs. length gs = og_idx r \<and> concat (map fst gs) = rev (run_scheduled r)
            \<and> persisted r = concat (map (\<lambda>(i, obs, itime).
                  map (\<lambda>repeat. \<lparr>og_token = generate_token (og_name qrunid i repeat),
                                   members = obs, duration = itime\<rparr>) [0..<nrepeats + 1])
                  (enumerate 1 gs)))
        \<and> length (persisted r) = (nrepeats + 1) * og_idx r
        \<and> distinct (concat (map (\<lambda>i. map (og_name qrunid i) [0..<nrepeats + 1])
              [1..<1 + og_idx r]))
        \<and> (inj generate_token \<longrightarrow> distinct (map og_token (persisted r)))"
    using og_passes_cfht by blast
  show "og_passes k 40 sep (ph2_emit runid qrunid) targets n_ob_tokens initial_run = Inr r
     \<longrightarrow> (\<exists>gs. length gs = og_idx r \<and> concat (map fst gs) = rev (run_scheduled r)
            \<and> persisted r = concat (map (\<lambda>(i, obs, itime).
                  map (\<lambda>repeat. \<lparr>og_token = ph2_og_token runid qrunid i repeat,
                                   members = obs, duration = itime\<rparr>) [0..<nrepeats + 1])
                  (enumerate 1 gs)))
        \<and> length (persisted r) = (nrepeats + 1) * og_idx r
        \<and> distinct (map og_token (persisted r))"
    using og_passes_ph2 by blast
  show "execute generate_token qrunid sep targets fuel = Some (Inr r)
     \<longrightarrow> og_passes fuel 0 sep (cfht_emit generate_token qrunid) targets (length targets)
           initial_run = Inr r"
    unfolding execute_def using og_loop_og_passes by blast
  show "ph2_main runid qrunid sep n_ob_tokens targets fuel = Some (Inr r)
     \<longrightarrow> og_passes fuel 40 sep (ph2_emit runid qrunid) targets n_ob_tokens initial_run = Inr r"
    unfolding ph2_main_def using og_loop_og_passes by blast
qed

theorem persisted_copies_distinct_tokens_witness:
  "og_body 0 (\<lambda>a b. \<bar>fst a - fst b\<bar>) (cfht_emit (\<lambda>n. n) ''18AQ01'')
        [\<lparr>token = ''T1'', coordinate = (10, 0), magnitude = 22\<rparr>] initial_run
     = Inr \<lparr>run_scheduled = [''T1''], og_idx = 1, total_itime = 240,
          persisted =
            [\<lparr>og_token = ''18AQ01-1-0'', members = [''T1''], duration = 80\<rparr>,
             \<lparr>og_token = ''18AQ01-1-1'', members = [''T1''], duration = 80\<rparr>,
             \<lparr>og_token = ''18AQ01-1-2'', members = [''T1''], duration = 80\<rparr>]\<rparr>
   \<and> og_body 40 (\<lambda>a b. \<bar>fst a - fst b\<bar>) (ph2_emit ''17BC08'' ''18AQ01'')
        [\<lparr>token = ''T1'', coordinate = (10, 0), magnitude = 22\<rparr>] initial_run
     = Inr \<lparr>run_scheduled = [''T1''], og_idx = 1, total_itime = 360,
          persisted =
            [\<lparr>og_token = ''OG_17BC08_18AQ01_1_0'', members = [''T1''], duration = 120\<rparr>,
             \<lparr>og_token = ''OG_17BC08_18AQ01_1_1'', members = [''T1''], duration = 120\<rparr>,
             \<lparr>og_token = ''OG_17BC08_18AQ01_1_2'', members = [''T1''], duration = 120\<rparr>]\<rparr>
   \<and> og_passes 2 0 (\<lambda>a b. \<bar>fst a - fst b\<bar>) (cfht_emit (\<lambda>n. n) ''18AQ01'')
        [\<lparr>token = ''T1'', coordinate = (10, 0), magnitude = 22\<rparr>,
         \<lparr>token = ''T1'', coordinate = (10, 0), magnitude = 22\<rparr>] 2 initial_run
     = Inr \<lparr>run_scheduled = [''T1''], og_idx = 2, total_itime = 240,
          persisted =
            [\<lparr>og_token = ''18AQ01-1-0'', members = [''T1''], duration = 80\<rparr>,
             \<lparr>og_token = ''18AQ01-1-1'', members = [''T1''], duration = 80\<rparr>,
             \<lparr>og_token = ''18AQ01-1-2'', members = [''T1''], duration = 80\<rparr>,
             \<lparr>og_token = ''18AQ01-2-0'', members = [], duration = 0\<rparr>,
             \<lparr>og_token = ''18AQ01-2-1'', members = [], duration = 0\<rparr>,
             \<lparr>og_token = ''18AQ01-2-2'', members = [], duration = 0\<rparr>]\<rparr>
   \<and> og_passes 1 40 (\<lambda>a b. \<bar>fst a - fst b\<bar>) (ph2_emit ''17BC08'' ''18AQ01'')
        [\<lparr>token = ''T1'', coordinate = (10, 0), magnitude = 22\<rparr>] 1 initial_run
     = Inr \<lparr>run_scheduled = [''T1''], og_idx = 1, total_itime = 360,
          persisted =
            [\<lparr>og_token = ''OG_17BC08_18AQ01_1_0'', members = [''T1''], duration = 120\<rparr>,
             \<lparr>og_token = ''OG_17BC08_18AQ01_1_1'', members = [''T1''], duration = 120\<rparr>,
             \<lparr>og_token = ''OG_17BC08_18AQ01_1_2'', members = [''T1''], duration = 120\<rparr>]\<rparr>
   \<and> execute (\<lambda>n. n) ''18AQ01'' (\<lambda>a b. \<bar>fst a - fst b\<bar>)
        [\<lparr>token = ''T1'', coordinate = (10, 0), magnitude = 22\<rparr>] 1
     = Some (Inr \<lparr>run_scheduled = [''T1''], og_idx = 1, total_itime = 240,
          persisted =
            [\<lparr>og_token = ''18AQ01-1-0'', members = [''T1''], duration = 80\<rparr>,
             \<lparr>og_token = ''18AQ01-1-1'', members = [''T1''], duration = 80\<rparr>,
             \<lparr>og_token = ''18AQ01-1-2'', members = [''T1''], duration = 80\<rparr>]\<rparr>)
   \<and> ph2_main ''17BC08'' ''18AQ01'' (\<lambda>a b. \<bar>fst a - fst b\<bar>) 1
        [\<lparr>token = ''T1'', coordinate = (10, 0), magnitude = 22\<rparr>] 1
     = Some (Inr \<lparr>run_scheduled = [''T1''], og_idx = 1, total_itime = 360,
          persisted =
            [\<lparr>og_token = ''OG_17BC08_18AQ01_1_0'', members = [''T1''], duration = 120\<rparr>,
             \<lparr>og_token = ''OG_17BC08_18AQ01_1_1'', members = [''T1''], duration = 120\<rparr>,
             \<lparr>og_token = ''OG_17BC08_18AQ01_1_2'', members = [''T1''], duration = 120\<rparr>]\<rparr>)
   \<and> inj (\<lambda>n :: string. n)
   \<and> distinct [''18AQ01-1-0'', ''18AQ01-1-1'', ''18AQ01-1-2'',
                ''18AQ01-2-0'', ''18AQ01-2-1'', ''18AQ01-2-2'']
   \<and> distinct [''OG_17BC08_18AQ01_1_0'', ''OG_17BC08_18AQ01_1_1'', ''OG_17BC08_18AQ01_1_2'']"
proof -
  let ?sep = "\<lambda>(a :: coord) (b :: coord). \<bar>fst a - fst b\<bar>"
  let ?t1 = "\<lparr>token = ''T1'', coordinate = (10, 0), magnitude = 22\<rparr>"
  let ?r1 = "\<lparr>run_scheduled = [''T1''], og_idx = 1, total_itime = 240,
          persisted =
            [\<lparr>og_token = ''18AQ01-1-0'', members = [''T1''], duration = 80\<rparr>,
             \<lparr>og_token = ''18AQ01-1-1'', members = [''T1''], duration = 80\<rparr>,
             \<lparr>og_token = ''18AQ01-1-2'', members = [''T1''], duration = 80\<rparr>]\<rparr>"
  let ?r2 = "\<lparr>run_scheduled = [''T1''], og_idx = 1, total_itime = 360,
          persisted =
            [\<lparr>og_token = ''OG_17BC08_18AQ01_1_0'', members = [''T1''], duration = 120\<rparr>,
             \<lparr>og_token = ''OG_17BC08_18AQ01_1_1'', members = [''T1''], duration = 120\<rparr>,
             \<lparr>og_token = ''OG_17BC08_18AQ01_1_2'', members = [''T1''], duration = 120\<rparr>]\<rparr>"
  let ?r3 = "\<lparr>run_scheduled = [''T1''], og_idx = 2, total_itime = 240,
          persisted =
            [\<lparr>og_token = ''18AQ01-1-0'', members = [''T1''], duration = 80\<rparr>,
             \<lparr>og_token = ''18AQ01-1-1'', members = [''T1''], duration = 80\<rparr>,
             \<lparr>og_token = ''18AQ01-1-2'', members = [''T1''], duration = 80\<rparr>,
             \<lparr>og_token = ''18AQ01-2-0'', members = [], duration = 0\<rparr>,
             \<lparr>og_token = ''18AQ01-2-1'', members = [], duration = 0\<rparr>,
             \<lparr>og_token = ''18AQ01-2-2'', members = [], duration = 0\<rparr>]\<rparr>"
  have a: "og_body 0 ?sep (cfht_emit (\<lambda>n. n) ''18AQ01'') [?t1] initial_run = Inr ?r1"
    by (simp add: run_eval str_nat_0 str_nat_1 str_nat_2)
  have b: "og_body 40 ?sep (ph2_emit ''17BC08'' ''18AQ01'') [?t1] initial_run = Inr ?r2"
    by (simp add: run_eval str_nat_0 str_nat_1 str_nat_2)
  have c: "og_passes 2 0 ?sep (cfht_emit (\<lambda>n. n) ''18AQ01'') [?t1, ?t1] 2 initial_run = Inr ?r3"
    by (simp add: run_eval str_nat_0 str_nat_1 str_nat_2)
  have d: "og_passes 1 40 ?sep (ph2_emit ''17BC08'' ''18AQ01'') [?t1] 1 initial_run = Inr ?r2"
    by (simp add: run_eval str_nat_0 str_nat_1 str_nat_2)
  have e: "execute (\<lambda>n. n) ''18AQ01'' ?sep [?t1] 1 = Some (Inr ?r1)"
    by (simp add: run_eval str_nat_0 str_nat_1 str_nat_2)
  have f: "ph2_main ''17BC08'' ''18AQ01'' ?sep 1 [?t1] 1 = Some (Inr ?r2)"
    by (simp add: run_eval str_nat_0 str_nat_1 str_nat_2)
  have i: "inj (\<lambda>n :: string. n)" by simp
  note t1 = persisted_copies_distinct_tokens [where sep = ?sep and targets = "[?t1]"
      and generate_token = "\<lambda>n. n" and qrunid = "''18AQ01''" and runid = "''17BC08''"
      and rs = initial_run and rs' = ?r1 and fuel = 1 and r = ?r1]
  note t2 = persisted_copies_distinct_tokens [where sep = ?sep and targets = "[?t1]"
      and generate_token = "\<lambda>n. n" and qrunid = "''18AQ01''" and runid = "''17BC08''"
      and rs = initial_run and rs' = ?r2 and k = 1 and n_ob_tokens = 1 and fuel = 1 and r = ?r2]
  note t3 = persisted_copies_distinct_tokens [where sep = ?sep and targets = "[?t1, ?t1]"
      and generate_token = "\<lambda>n. n" and qrunid = "''18AQ01''" and k = 2 and r = ?r3]
  have "og_passes 1 0 ?sep (cfht_emit (\<lambda>n. n) ''18AQ01'') [?t1] (length [?t1]) initial_run = Inr ?r1"
    using t1 e by blast
  moreover have "distinct (map og_token (persisted ?r2))" using t2 d by blast
  moreover have "distinct (map og_token (persisted ?r3))" using t3 c i by simp
  ultimately show ?thesis using a b c d e f i by simp
qed

end
